theory Spec2Isabelle
  imports Complex_Main "HOL-Library.Monad_Syntax"
begin

section \<open>The wheel picker of the Timeline Journal (src/js/wheel-picker.js)\<close>

text \<open>
  JavaScript numbers are modelled as follows: indices, years, months, days, hours and
  minutes are \<open>int\<close>; pixel offsets and velocities are \<open>real\<close> (exact arithmetic in
  place of IEEE doubles). \<open>undefined\<close> is \<open>None\<close>.
\<close>

subsection \<open>Configuration constants\<close>

definition ITEM_HEIGHT :: real where
  "ITEM_HEIGHT = 36"

subsection \<open>WheelColumn: the state of one column\<close>

text \<open>
  The closure variables of \<open>createWheelColumn\<close> are the first eight fields. The next
  two are what the column wrote to \<open>wheel.style\<close> (the translateY of the transform and
  whether the 250ms transition is on). \<open>pending\<close> is the set of animation-frame requests
  of this column that the browser has not run or cancelled yet, and \<open>nextId\<close> the handle
  the next \<open>requestAnimationFrame\<close> returns.
\<close>

record column =
  items :: "string list"
  currentIndex :: int
  startY :: real
  currentY :: real
  lastY :: real
  velocity :: real
  isDragging :: bool
  animationId :: "nat option"
  transformY :: real
  transition :: bool
  pending :: "nat set"
  nextId :: nat

text \<open>A change notification \<open>onChange(index, items[index])\<close> of a column.\<close>

type_synonym notification = "int \<times> string option"

text \<open>\<open>xs[i]\<close> of JavaScript: \<open>undefined\<close> outside the array.\<close>

definition js_index :: "'a list \<Rightarrow> int \<Rightarrow> 'a option" where
  "js_index xs i = (if 0 \<le> i \<and> i < int (length xs) then Some (xs ! nat i) else None)"

definition setPosition :: "column \<Rightarrow> int \<Rightarrow> bool \<Rightarrow> column" where
  "setPosition c index animate =
     (let targetY = - real_of_int index * ITEM_HEIGHT
      in c\<lparr>transition := animate, transformY := targetY, currentY := targetY\<rparr>)"

text \<open>
  \<open>scrollToIndex\<close> returns the column and the notifications it fired (none or one).
  Every column of this file is created with an \<open>onChange\<close>.
\<close>

definition scrollToIndex :: "column \<Rightarrow> int \<Rightarrow> bool \<Rightarrow> column \<times> notification list" where
  "scrollToIndex c index0 animate =
     (let index = max 0 (min (int (length (items c)) - 1) index0)
      in if index \<noteq> currentIndex c
         then (setPosition (c\<lparr>currentIndex := index\<rparr>) index animate,
               [(index, js_index (items c) index)])
         else (setPosition c index animate, []))"

definition getIndexFromPosition :: "real \<Rightarrow> int" where
  "getIndexFromPosition y = round (- y / ITEM_HEIGHT)"

definition cancelAnimationFrame :: "nat \<Rightarrow> column \<Rightarrow> column" where
  "cancelAnimationFrame a c = c\<lparr>pending := pending c - {a}\<rparr>"

definition requestAnimationFrame :: "column \<Rightarrow> column" where
  "requestAnimationFrame c =
     c\<lparr>animationId := Some (nextId c), pending := insert (nextId c) (pending c),
       nextId := Suc (nextId c)\<rparr>"

text \<open>\<open>handleStart\<close>; the argument is \<open>point.clientY\<close>.\<close>

definition handleStart :: "real \<Rightarrow> column \<Rightarrow> column" where
  "handleStart clientY c =
     (let c1 = c\<lparr>isDragging := True\<rparr>;
          c2 = (case animationId c1 of
                  Some a \<Rightarrow> (cancelAnimationFrame a c1)\<lparr>animationId := None\<rparr>
                | None \<Rightarrow> c1)
      in c2\<lparr>startY := clientY - currentY c2, lastY := clientY, velocity := 0,
            transition := False\<rparr>)"

definition minY :: "column \<Rightarrow> real" where
  "minY c = - (real (length (items c)) - 1) * ITEM_HEIGHT"

definition maxY :: real where
  "maxY = 0"

definition handleMove :: "real \<Rightarrow> column \<Rightarrow> column" where
  "handleMove clientY c =
     (if \<not> isDragging c then c
      else
        let newY = clientY - startY c;
            c1 = c\<lparr>velocity := clientY - lastY c, lastY := clientY\<rparr>;
            dampedY = (if newY > maxY then maxY + (newY - maxY) * 0.3
                       else if newY < minY c1 then minY c1 + (newY - minY c1) * 0.3
                       else newY)
        in c1\<lparr>currentY := dampedY, transformY := dampedY\<rparr>)"

text \<open>One run of the closure \<open>inertiaScroll\<close> (one animation tick).\<close>

definition inertiaScroll :: "column \<Rightarrow> column \<times> notification list" where
  "inertiaScroll c =
     (let v = velocity c * 0.92;
          c1 = c\<lparr>velocity := v, currentY := currentY c + v\<rparr>
      in if currentY c1 > maxY \<or> currentY c1 < minY c1 \<or> \<bar>velocity c1\<bar> < 0.5
         then scrollToIndex c1 (getIndexFromPosition (currentY c1)) True
         else (requestAnimationFrame (c1\<lparr>transformY := currentY c1\<rparr>), []))"

definition handleEnd :: "column \<Rightarrow> column \<times> notification list" where
  "handleEnd c =
     (if \<not> isDragging c then (c, [])
      else
        let c1 = c\<lparr>isDragging := False\<rparr>
        in if \<bar>velocity c1\<bar> > 2 then inertiaScroll c1
           else scrollToIndex c1 (getIndexFromPosition (currentY c1)) True)"

text \<open>The click listener; the argument is the \<open>data-index\<close> of the item clicked.\<close>

definition handleClick :: "int \<Rightarrow> column \<Rightarrow> column \<times> notification list" where
  "handleClick index c = scrollToIndex c index True"

text \<open>The wheel listener; the argument is \<open>e.deltaY\<close>.\<close>

definition handleWheel :: "real \<Rightarrow> column \<Rightarrow> column \<times> notification list" where
  "handleWheel deltaY c =
     (let delta = (if deltaY > 0 then 1 else if deltaY < 0 then - 1 else 0)
      in scrollToIndex c (currentIndex c + delta) True)"

text \<open>The browser runs the frame callback \<open>a\<close>, if it is still pending.\<close>

definition runFrame :: "nat \<Rightarrow> column \<Rightarrow> column \<times> notification list" where
  "runFrame a c =
     (if a \<in> pending c then inertiaScroll (c\<lparr>pending := pending c - {a}\<rparr>) else (c, []))"

text \<open>\<open>createWheelColumn\<close>: the state after \<open>setPosition(selectedIndex, false)\<close>.\<close>

definition createWheelColumn :: "string list \<Rightarrow> int \<Rightarrow> column" where
  "createWheelColumn its selectedIndex =
     setPosition
       \<lparr>items = its, currentIndex = selectedIndex, startY = 0, currentY = 0, lastY = 0,
        velocity = 0, isDragging = False, animationId = None, transformY = 0,
        transition = False, pending = {}, nextId = 1\<rparr>
       selectedIndex False"

text \<open>The column's \<open>_api\<close>.\<close>

definition getValue :: "column \<Rightarrow> string option" where
  "getValue c = js_index (items c) (currentIndex c)"

definition getIndex :: "column \<Rightarrow> int" where
  "getIndex c = currentIndex c"

definition setIndex :: "int \<Rightarrow> bool \<Rightarrow> column \<Rightarrow> column \<times> notification list" where
  "setIndex index animate c = scrollToIndex c index animate"

definition setItems :: "string list \<Rightarrow> int \<Rightarrow> column \<Rightarrow> column \<times> notification list" where
  "setItems newItems newIndex c =
     scrollToIndex (c\<lparr>items := newItems\<rparr>) (min newIndex (int (length newItems) - 1)) False"

text \<open>The events a column receives, and the column after a sequence of them.\<close>

datatype event =
    PointerDown real
  | PointerMove real
  | PointerUp
  | Frame nat
  | Click int
  | Wheel real
  | SetIndex int bool
  | SetItems "string list" int

fun step :: "event \<Rightarrow> column \<Rightarrow> column \<times> notification list" where
  "step (PointerDown y) c = (handleStart y c, [])"
| "step (PointerMove y) c = (handleMove y c, [])"
| "step PointerUp c = handleEnd c"
| "step (Frame a) c = runFrame a c"
| "step (Click i) c = handleClick i c"
| "step (Wheel d) c = handleWheel d c"
| "step (SetIndex i animate) c = setIndex i animate c"
| "step (SetItems its i) c = setItems its i c"

fun run :: "event list \<Rightarrow> column \<Rightarrow> column \<times> notification list" where
  "run [] c = (c, [])"
| "run (e # es) c =
     (let (c1, ns1) = step e c; (c2, ns2) = run es c1 in (c2, ns1 @ ns2))"

text \<open>
  The interaction state of the specification, read off the column: dragging between
  pointer-down and pointer-up, settling while an inertia frame is pending, idle otherwise.
\<close>

datatype interaction = Idle | Dragging | Settling

definition interactionState :: "column \<Rightarrow> interaction" where
  "interactionState c =
     (if isDragging c then Dragging else if pending c \<noteq> {} then Settling else Idle)"

definition aligned :: "column \<Rightarrow> bool" where
  "aligned c \<longleftrightarrow>
     currentY c = - real_of_int (currentIndex c) * ITEM_HEIGHT \<and> transformY c = currentY c"

subsection \<open>A release followed by its animation frames\<close>

text \<open>
  \<open>settle\<close> lets the browser run the frame that \<open>animationId\<close> names, again and again,
  until none is pending: the chain of \<open>requestAnimationFrame(inertiaScroll)\<close> calls with
  no other event in between. Each frame multiplies the velocity by 0.92 and the chain goes
  on only while the velocity is at least 0.5, which bounds the number of frames.
\<close>

function settle :: "column \<Rightarrow> column \<times> notification list" where
  "settle c =
     (case animationId c of
        None \<Rightarrow> (c, [])
      | Some a \<Rightarrow>
          if a \<in> pending c
          then (let (c1, ns1) = runFrame a c; (c2, ns2) = settle c1 in (c2, ns1 @ ns2))
          else (c, []))"
  by pat_completeness auto
termination
proof (relation "measure (\<lambda>c. case animationId c of
                            None \<Rightarrow> 0
                          | Some a \<Rightarrow> if a \<in> pending c
                                      then Suc (nat \<lfloor>25 * \<bar>velocity c\<bar>\<rfloor>) else 0)")
  show "wf (measure (\<lambda>c. case animationId c of
                            None \<Rightarrow> 0
                          | Some a \<Rightarrow> if a \<in> pending c
                                      then Suc (nat \<lfloor>25 * \<bar>velocity c\<bar>\<rfloor>) else 0))"
    by simp
next
  fix c :: column and a :: nat and x :: "column \<times> notification list"
    and c1 :: column and ns1 :: "notification list"
  assume a: "animationId c = Some a" and p: "a \<in> pending c"
    and x: "x = runFrame a c" and c1: "(c1, ns1) = x"
  let ?v = "velocity c * 0.92"
  have run: "(c1, ns1) = inertiaScroll (c\<lparr>pending := pending c - {a}\<rparr>)"
    using x c1 p by (simp add: runFrame_def)
  show "(c1, c) \<in> measure (\<lambda>c. case animationId c of
                            None \<Rightarrow> 0
                          | Some a \<Rightarrow> if a \<in> pending c
                                      then Suc (nat \<lfloor>25 * \<bar>velocity c\<bar>\<rfloor>) else 0)"
  proof (cases "currentY c + ?v > maxY \<or> currentY c + ?v < minY c \<or> \<bar>?v\<bar> < 0.5")
    case True
    then have "animationId c1 = Some a" and "pending c1 = pending c - {a}"
      using run a
      by (auto simp: inertiaScroll_def Let_def minY_def scrollToIndex_def setPosition_def
          split: if_splits)
    then show ?thesis using a p by simp
  next
    case False
    then have v1: "velocity c1 = ?v" and due: "animationId c1 = Some (nextId c)"
      "nextId c \<in> pending c1"
      using run
      by (auto simp: inertiaScroll_def Let_def minY_def requestAnimationFrame_def)
    from False have big: "\<bar>?v\<bar> \<ge> 0.5" by simp
    have "25 * \<bar>?v\<bar> + 1 \<le> 25 * \<bar>velocity c\<bar>"
      using big by (simp add: abs_mult)
    then have "\<lfloor>25 * \<bar>?v\<bar>\<rfloor> + 1 \<le> \<lfloor>25 * \<bar>velocity c\<bar>\<rfloor>"
      by (metis floor_mono floor_add_int of_int_1)
    moreover have "0 \<le> \<lfloor>25 * \<bar>?v\<bar>\<rfloor>" by simp
    ultimately have "nat \<lfloor>25 * \<bar>?v\<bar>\<rfloor> < nat \<lfloor>25 * \<bar>velocity c\<bar>\<rfloor>"
      by linarith
    then have "nat \<lfloor>25 * \<bar>velocity c1\<bar>\<rfloor> < nat \<lfloor>25 * \<bar>velocity c\<bar>\<rfloor>"
      by (simp only: v1)
    then show ?thesis using a p due by simp
  qed
qed

text \<open>Pointer-up and every frame that follows it.\<close>

definition release :: "column \<Rightarrow> column \<times> notification list" where
  "release c =
     (let (c1, ns1) = handleEnd c; (c2, ns2) = settle c1 in (c2, ns1 @ ns2))"

text \<open>
  The inertial trajectory by itself: from a velocity \<open>v\<close> and an offset \<open>y\<close>, with the
  lower boundary \<open>lo\<close>, the offset at which the decay of \<open>inertiaScroll\<close> stops.
\<close>

function inertia_stop :: "real \<Rightarrow> real \<Rightarrow> real \<Rightarrow> real" where
  "inertia_stop lo v y =
     (let v1 = v * 0.92; y1 = y + v1
      in if y1 > maxY \<or> y1 < lo \<or> \<bar>v1\<bar> < 0.5 then y1 else inertia_stop lo v1 y1)"
  by pat_completeness auto
termination
proof (relation "measure (\<lambda>(lo, v, y). nat \<lfloor>25 * \<bar>v * 0.92\<bar>\<rfloor>)")
  show "wf (measure (\<lambda>(lo, v, y). nat \<lfloor>25 * \<bar>v * 0.92\<bar>\<rfloor>))" by simp
next
  fix lo v y v1 y1 :: real
  assume v1: "v1 = v * 0.92" and "y1 = y + v1"
    and go: "\<not> (maxY < y1 \<or> y1 < lo \<or> \<bar>v1\<bar> < 0.5)"
  have "25 * \<bar>v1 * 0.92\<bar> + 1 \<le> 25 * \<bar>v1\<bar>"
    using go by (simp add: abs_mult)
  then have "\<lfloor>25 * \<bar>v1 * 0.92\<bar>\<rfloor> + 1 \<le> \<lfloor>25 * \<bar>v1\<bar>\<rfloor>"
    by (metis floor_mono floor_add_int add.commute floor_one of_int_1 floor_of_int)
  moreover have "0 \<le> \<lfloor>25 * \<bar>v1 * 0.92\<bar>\<rfloor>" by simp
  ultimately have "nat \<lfloor>25 * \<bar>v1 * 0.92\<bar>\<rfloor> < nat \<lfloor>25 * \<bar>v1\<bar>\<rfloor>"
    by linarith
  then have "nat \<lfloor>25 * \<bar>v1 * 0.92\<bar>\<rfloor> < nat \<lfloor>25 * \<bar>v * 0.92\<bar>\<rfloor>"
    by (simp only: v1)
  then show "((lo, v1, y1), (lo, v, y)) \<in> measure (\<lambda>(lo, v, y). nat \<lfloor>25 * \<bar>v * 0.92\<bar>\<rfloor>)"
    by (simp only: in_measure prod.case)
qed

subsection \<open>Numbers and strings of JavaScript\<close>

definition digit_char :: "int \<Rightarrow> char" where
  "digit_char d = ''0123456789'' ! nat d"

text \<open>\<open>String(i)\<close> for an integer: its decimal digits, after a minus sign when negative.\<close>

function String_digits :: "int \<Rightarrow> string" where
  "String_digits n =
     (if n < 10 then [digit_char n]
      else String_digits (n div 10) @ [digit_char (n mod 10)])"
  by pat_completeness auto
termination
  by (relation "measure nat") auto

definition String_js :: "int \<Rightarrow> string" where
  "String_js i = (if i < 0 then CHR ''-'' # String_digits (- i) else String_digits i)"

text \<open>\<open>s.padStart(2, '0')\<close>.\<close>

definition padStart2 :: "string \<Rightarrow> string" where
  "padStart2 s = replicate (2 - length s) CHR ''0'' @ s"

text \<open>
  \<open>parseInt(s)\<close> with no radix: white space is skipped, then a sign, then \<open>0x\<close> selects
  base 16, then the longest run of digits is read; \<open>None\<close> is NaN.
\<close>

definition digit_value :: "char \<Rightarrow> int option" where
  "digit_value c =
     map_of [(CHR ''0'', 0), (CHR ''1'', 1), (CHR ''2'', 2), (CHR ''3'', 3), (CHR ''4'', 4),
             (CHR ''5'', 5), (CHR ''6'', 6), (CHR ''7'', 7), (CHR ''8'', 8), (CHR ''9'', 9),
             (CHR ''a'', 10), (CHR ''b'', 11), (CHR ''c'', 12), (CHR ''d'', 13),
             (CHR ''e'', 14), (CHR ''f'', 15), (CHR ''A'', 10), (CHR ''B'', 11),
             (CHR ''C'', 12), (CHR ''D'', 13), (CHR ''E'', 14), (CHR ''F'', 15)] c"

definition is_digit :: "int \<Rightarrow> char \<Rightarrow> bool" where
  "is_digit radix c = (case digit_value c of Some d \<Rightarrow> d < radix | None \<Rightarrow> False)"

definition is_space :: "char \<Rightarrow> bool" where
  "is_space c \<longleftrightarrow> c \<in> set [CHR '' '', CHR 0x09, CHR 0x0A, CHR 0x0B, CHR 0x0C, CHR 0x0D]"

definition digits_value :: "int \<Rightarrow> string \<Rightarrow> int" where
  "digits_value radix ds =
     foldl (\<lambda>acc c. radix * acc + (case digit_value c of Some d \<Rightarrow> d | None \<Rightarrow> 0)) 0 ds"

definition parseInt :: "string \<Rightarrow> int option" where
  "parseInt s =
     (let s1 = dropWhile is_space s;
          (neg, s2) = (case s1 of
                         [] \<Rightarrow> (False, s1)
                       | c # r \<Rightarrow> if c = CHR ''-'' then (True, r)
                                 else if c = CHR ''+'' then (False, r) else (False, s1));
          (radix, s3) = (case s2 of
                           c0 # cx # r \<Rightarrow>
                             if c0 = CHR ''0'' \<and> (cx = CHR ''x'' \<or> cx = CHR ''X'')
                             then (16, r) else (10, s2)
                         | _ \<Rightarrow> (10, s2));
          ds = takeWhile (is_digit radix) s3
      in if ds = [] then None
         else Some ((if neg then - 1 else 1) * digits_value radix ds))"

text \<open>\<open>parseInt(val)\<close> where \<open>val\<close> may be \<open>undefined\<close>.\<close>

definition parseInt_opt :: "string option \<Rightarrow> int option" where
  "parseInt_opt val = (case val of None \<Rightarrow> None | Some s \<Rightarrow> parseInt s)"

text \<open>\<open>xs.indexOf(x)\<close>: the first position of \<open>x\<close>, or \<open>-1\<close>.\<close>

fun indexOf_from :: "int \<Rightarrow> 'a list \<Rightarrow> 'a \<Rightarrow> int" where
  "indexOf_from k [] x = - 1"
| "indexOf_from k (y # ys) x = (if y = x then k else indexOf_from (k + 1) ys x)"

definition indexOf :: "'a list \<Rightarrow> 'a \<Rightarrow> int" where
  "indexOf xs x = indexOf_from 0 xs x"

subsection \<open>The range provider\<close>

text \<open>The loop of \<open>range\<close>: \<open>for (let i = start; i <= end; i++) arr.push(...)\<close>.\<close>

function range_loop :: "int \<Rightarrow> int \<Rightarrow> bool \<Rightarrow> string list \<Rightarrow> string list" where
  "range_loop i stop padZero arr =
     (if i \<le> stop
      then range_loop (i + 1) stop padZero
             (arr @ [if padZero then padStart2 (String_js i) else String_js i])
      else arr)"
  by pat_completeness auto
termination
  by (relation "measure (\<lambda>(i, stop, padZero, arr). nat (stop - i + 1))") auto

definition range_js :: "int \<Rightarrow> int \<Rightarrow> bool \<Rightarrow> string list" where
  "range_js start stop padZero = range_loop start stop padZero []"

text \<open>
  What \<open>getYearRange\<close> finds under the key \<open>diary_settings\<close> of the local storage:
  nothing (\<open>getItem\<close> returns null and \<open>'{}'\<close> is parsed), a text on which
  \<open>JSON.parse\<close> or the property access throws, or settings whose \<open>birthday\<close> is falsy
  or is a truthy value \<open>b\<close>. For a truthy \<open>b\<close> the argument is
  \<open>new Date(b).getFullYear()\<close>, which is NaN (\<open>None\<close>) when \<open>b\<close> is not a date the
  engine can parse: \<open>new Date\<close> returns an Invalid Date and throws nothing.
\<close>

datatype birthday = NoBirthday | Birthday "int option"

datatype diary_settings = NoItem | Throws | Settings birthday

text \<open>
  The second argument is \<open>new Date().getFullYear()\<close>. With \<open>birthYear = NaN\<close> the
  test \<open>i <= end\<close> of the loop of \<open>range\<close> is false at once and the array stays empty.
\<close>

definition getYearRange :: "diary_settings \<Rightarrow> int \<Rightarrow> string list" where
  "getYearRange stored currentYear =
     (let birthYear = (case stored of
                         NoItem \<Rightarrow> Some 2000
                       | Throws \<Rightarrow> Some 2000
                       | Settings NoBirthday \<Rightarrow> Some 2000
                       | Settings (Birthday y) \<Rightarrow> y)
      in case birthYear of
           Some b \<Rightarrow> range_js b (currentYear + 1) False
         | None \<Rightarrow> [])"

subsection \<open>Dates\<close>

text \<open>
  A valid \<open>Date\<close> in local time: full year, month (0 to 11), day of the month and the
  milliseconds since midnight. Time zones, daylight saving and the limits of the time
  value are left out.
\<close>

definition leap_year :: "int \<Rightarrow> bool" where
  "leap_year y \<longleftrightarrow> (y mod 4 = 0 \<and> y mod 100 \<noteq> 0) \<or> y mod 400 = 0"

definition month_length :: "int \<Rightarrow> int \<Rightarrow> int" where
  "month_length y m =
     (if m = 1 then (if leap_year y then 29 else 28)
      else if m = 3 \<or> m = 5 \<or> m = 8 \<or> m = 10 then 30 else 31)"

definition prev_month :: "int \<Rightarrow> int \<Rightarrow> int \<times> int" where
  "prev_month y m = (if m = 0 then (y - 1, 11) else (y, m - 1))"

definition next_month :: "int \<Rightarrow> int \<Rightarrow> int \<times> int" where
  "next_month y m = (if m = 11 then (y + 1, 0) else (y, m + 1))"

text \<open>
  \<open>MakeDay\<close> of the language: a day of the month outside its month moves into the
  months before or after.
\<close>

function norm_day :: "int \<Rightarrow> int \<Rightarrow> int \<Rightarrow> int \<times> int \<times> int" where
  "norm_day y m d =
     (if d < 1
      then norm_day (fst (prev_month y m)) (snd (prev_month y m))
             (d + month_length (fst (prev_month y m)) (snd (prev_month y m)))
      else if d > month_length y m
      then norm_day (fst (next_month y m)) (snd (next_month y m)) (d - month_length y m)
      else (y, m, d))"
  by pat_completeness auto
termination
  by (relation "measure (\<lambda>(y, m, d). if d < 1 then nat (32 - d) else nat d)")
    (auto simp: month_length_def)

definition MakeDay :: "int \<Rightarrow> int \<Rightarrow> int \<Rightarrow> int \<times> int \<times> int" where
  "MakeDay y m d = norm_day (y + m div 12) (m mod 12) d"

text \<open>
  \<open>new Date(year, month, day)\<close>: a year from 0 to 99 means 1900 + year. \<open>getDaysInMonth\<close>
  asks for day 0 of the following month.
\<close>

definition Date_ymd :: "int \<Rightarrow> int \<Rightarrow> int \<Rightarrow> int \<times> int \<times> int" where
  "Date_ymd y m d = MakeDay (if 0 \<le> y \<and> y \<le> 99 then 1900 + y else y) m d"

definition getDaysInMonth :: "int \<Rightarrow> int \<Rightarrow> int" where
  "getDaysInMonth year month = snd (snd (Date_ymd year month 0))"

subsection \<open>The picker card\<close>

text \<open>
  The objects the picker shares with its caller live in a store: \<open>currentValue\<close> is a
  reference, \<open>setMonth\<close> and the like write through it, and \<open>new Date(currentValue)\<close>
  and \<open>{ ...currentValue }\<close> allocate. A \<open>Date\<close> holds year, month (0 to 11), day and
  the milliseconds since midnight; the object of Time mode holds hour and minute.
\<close>

datatype mode = DateMode | TimeMode

datatype jsobj = DateObj int int int int | TimeObj int int

text \<open>The text of the title: year and month, or the padded hour and minute.\<close>

datatype title = NoTitle | DateTitle int int | TimeTitle string string

text \<open>
  \<open>onChangeCalls\<close> and \<open>onConfirmCalls\<close> list the calls of the caller's callbacks: the
  reference passed and what the object held then. \<open>active\<close> is \<open>activePickerEl\<close>
  pointing at this card. The handlers return \<open>None\<close> where the script would go on with
  NaN (an item that is no number) or with an object of the wrong kind, which the model
  does not follow.
\<close>

record picker =
  mode :: mode
  heap :: "nat \<Rightarrow> jsobj option"
  nextAddr :: nat
  currentValue :: nat
  columns :: "column list"
  title :: title
  hasOnChange :: bool
  hasOnConfirm :: bool
  onChangeCalls :: "(nat \<times> jsobj) list"
  onConfirmCalls :: "(nat \<times> jsobj) list"
  active :: bool

definition alloc :: "jsobj \<Rightarrow> picker \<Rightarrow> nat \<times> picker" where
  "alloc v p =
     (nextAddr p, p\<lparr>heap := (heap p)(nextAddr p \<mapsto> v), nextAddr := Suc (nextAddr p)\<rparr>)"

definition dateAt :: "picker \<Rightarrow> nat \<Rightarrow> (int \<times> int \<times> int \<times> int) option" where
  "dateAt p a = (case heap p a of Some (DateObj y m d t) \<Rightarrow> Some (y, m, d, t) | _ \<Rightarrow> None)"

definition timeAt :: "picker \<Rightarrow> nat \<Rightarrow> (int \<times> int) option" where
  "timeAt p a = (case heap p a of Some (TimeObj h mi) \<Rightarrow> Some (h, mi) | _ \<Rightarrow> None)"

text \<open>The object behind \<open>currentValue\<close>, of the kind the mode works on.\<close>

definition readValue :: "picker \<Rightarrow> jsobj option" where
  "readValue p =
     (case heap p (currentValue p) of
        Some (DateObj y m d t) \<Rightarrow> if mode p = DateMode then Some (DateObj y m d t) else None
      | Some (TimeObj h mi) \<Rightarrow> if mode p = TimeMode then Some (TimeObj h mi) else None
      | None \<Rightarrow> None)"

definition writeValue :: "jsobj \<Rightarrow> picker \<Rightarrow> picker" where
  "writeValue v p = p\<lparr>heap := (heap p)(currentValue p \<mapsto> v)\<rparr>"

text \<open>\<open>mode === 'date' ? new Date(currentValue) : { ...currentValue }\<close>.\<close>

definition copyValue :: "picker \<Rightarrow> (nat \<times> picker) option" where
  "copyValue p = do { v \<leftarrow> readValue p; Some (alloc v p) }"

definition fireOnChange :: "picker \<Rightarrow> picker option" where
  "fireOnChange p =
     (if hasOnChange p
      then do {
        v \<leftarrow> readValue p;
        (a, p1) \<leftarrow> copyValue p;
        Some (p1\<lparr>onChangeCalls := onChangeCalls p1 @ [(a, v)]\<rparr>)
      }
      else Some p)"

definition updateTitle :: "picker \<Rightarrow> picker option" where
  "updateTitle p = do {
     v \<leftarrow> readValue p;
     Some (p\<lparr>title := (case v of
                          DateObj y m d t \<Rightarrow> DateTitle y (m + 1)
                        | TimeObj h mi \<Rightarrow>
                            TimeTitle (padStart2 (String_js h)) (padStart2 (String_js mi)))\<rparr>)
   }"

text \<open>
  A column runs its \<open>onChange\<close> inside \<open>scrollToIndex\<close>, before \<open>setPosition\<close>. No
  handler of the card reads or writes the column that called it, so the model finishes
  the column's operation first and then hands over the notifications, in order.
\<close>

fun notify_all ::
  "(notification \<Rightarrow> picker \<Rightarrow> picker option) \<Rightarrow> notification list \<Rightarrow> picker \<Rightarrow> picker option"
where
  "notify_all h [] p = Some p"
| "notify_all h (n # ns) p = (case h n p of None \<Rightarrow> None | Some p1 \<Rightarrow> notify_all h ns p1)"

definition withColumn ::
  "nat \<Rightarrow> (column \<Rightarrow> column \<times> notification list) \<Rightarrow>
   (notification \<Rightarrow> picker \<Rightarrow> picker option) \<Rightarrow> picker \<Rightarrow> picker option"
where
  "withColumn k f h p =
     (if k < length (columns p)
      then (case f (columns p ! k) of
              (c, ns) \<Rightarrow> notify_all h ns (p\<lparr>columns := (columns p)[k := c]\<rparr>))
      else None)"

text \<open>The \<open>onChange\<close> of the day column.\<close>

definition day_onChange :: "notification \<Rightarrow> picker \<Rightarrow> picker option" where
  "day_onChange n p = do {
     day \<leftarrow> parseInt_opt (snd n);
     (y, m, d, t) \<leftarrow> dateAt p (currentValue p);
     (y1, m1, d1) \<leftarrow> Some (MakeDay y m day);
     p1 \<leftarrow> updateTitle (writeValue (DateObj y1 m1 d1 t) p);
     fireOnChange p1
   }"

definition updateDayColumn :: "picker \<Rightarrow> picker option" where
  "updateDayColumn p = do {
     (year, m, d, t) \<leftarrow> dateAt p (currentValue p);
     month \<leftarrow> Some (m + 1);
     daysInMonth \<leftarrow> Some (getDaysInMonth year month);
     currentDay \<leftarrow> Some (min d daysInMonth);
     (y1, m1, d1) \<leftarrow> Some (MakeDay year m currentDay);
     withColumn 2 (setItems (range_js 1 daysInMonth False) (currentDay - 1)) day_onChange
       (writeValue (DateObj y1 m1 d1 t) p)
   }"

text \<open>The \<open>onChange\<close> of the year and of the month column.\<close>

definition year_onChange :: "notification \<Rightarrow> picker \<Rightarrow> picker option" where
  "year_onChange n p = do {
     year \<leftarrow> parseInt_opt (snd n);
     (y, m, d, t) \<leftarrow> dateAt p (currentValue p);
     (y1, m1, d1) \<leftarrow> Some (MakeDay year m d);
     p1 \<leftarrow> updateDayColumn (writeValue (DateObj y1 m1 d1 t) p);
     p2 \<leftarrow> updateTitle p1;
     fireOnChange p2
   }"

definition month_onChange :: "notification \<Rightarrow> picker \<Rightarrow> picker option" where
  "month_onChange n p = do {
     month \<leftarrow> parseInt_opt (snd n);
     (y, m, d, t) \<leftarrow> dateAt p (currentValue p);
     (y1, m1, d1) \<leftarrow> Some (MakeDay y (month - 1) d);
     p1 \<leftarrow> updateDayColumn (writeValue (DateObj y1 m1 d1 t) p);
     p2 \<leftarrow> updateTitle p1;
     fireOnChange p2
   }"

text \<open>The \<open>onChange\<close> of the hour and of the minute column.\<close>

definition hour_onChange :: "notification \<Rightarrow> picker \<Rightarrow> picker option" where
  "hour_onChange n p = do {
     h1 \<leftarrow> parseInt_opt (snd n);
     (h, mi) \<leftarrow> timeAt p (currentValue p);
     p1 \<leftarrow> updateTitle (writeValue (TimeObj h1 mi) p);
     fireOnChange p1
   }"

definition minute_onChange :: "notification \<Rightarrow> picker \<Rightarrow> picker option" where
  "minute_onChange n p = do {
     mi1 \<leftarrow> parseInt_opt (snd n);
     (h, mi) \<leftarrow> timeAt p (currentValue p);
     p1 \<leftarrow> updateTitle (writeValue (TimeObj h mi1) p);
     fireOnChange p1
   }"

text \<open>Which \<open>onChange\<close> the k-th column of a card was created with.\<close>

definition onChangeOf :: "mode \<Rightarrow> nat \<Rightarrow> notification \<Rightarrow> picker \<Rightarrow> picker option" where
  "onChangeOf md k =
     (case md of
        DateMode \<Rightarrow> if k = 0 then year_onChange else if k = 1 then month_onChange
                    else day_onChange
      | TimeMode \<Rightarrow> if k = 0 then hour_onChange else minute_onChange)"

text \<open>An event on the k-th column of the card.\<close>

definition columnEvent :: "nat \<Rightarrow> event \<Rightarrow> picker \<Rightarrow> picker option" where
  "columnEvent k e p = withColumn k (step e) (onChangeOf (mode p) k) p"

text \<open>A sequence of events on the k-th column of the card.\<close>

fun columnEvents :: "nat \<Rightarrow> event list \<Rightarrow> picker \<Rightarrow> picker option" where
  "columnEvents k [] p = Some p"
| "columnEvents k (e # es) p =
     (case columnEvent k e p of None \<Rightarrow> None | Some p1 \<Rightarrow> columnEvents k es p1)"

text \<open>\<open>getHours\<close> and \<open>getMinutes\<close> of a date, from its milliseconds since midnight.\<close>

definition getHours :: "int \<Rightarrow> int" where
  "getHours t = t div 3600000"

definition getMinutes :: "int \<Rightarrow> int" where
  "getMinutes t = (t div 60000) mod 60"

text \<open>
  \<open>create\<close>, without the placing of the card on the screen. \<open>val\<close> is the reference
  the caller passed, if any; \<open>now\<close> is the clock (what \<open>new Date()\<close> gives) and \<open>stored\<close>
  the local storage, as \<open>getYearRange\<close> reads it.

  The first part sets \<open>currentValue\<close>: the caller's object when it is a \<open>Date\<close> (Date
  mode) or when there is one at all (Time mode), a new object from the clock otherwise.
\<close>

definition initialValue ::
  "mode \<Rightarrow> nat option \<Rightarrow> bool \<Rightarrow> bool \<Rightarrow> int \<times> int \<times> int \<times> int \<Rightarrow>
   (nat \<Rightarrow> jsobj option) \<Rightarrow> nat \<Rightarrow> picker"
where
  "initialValue md val onChange onConfirm now h free =
     (case now of (ny, nm, nd, nt) \<Rightarrow>
      let p0 = \<lparr>mode = md, heap = h, nextAddr = free, currentValue = 0, columns = [],
                title = NoTitle, hasOnChange = onChange, hasOnConfirm = onConfirm,
                onChangeCalls = [], onConfirmCalls = [], active = True\<rparr>;
          fresh = (case md of
                     DateMode \<Rightarrow> DateObj ny nm nd nt
                   | TimeMode \<Rightarrow> TimeObj (getHours nt) (getMinutes nt));
          given = (case val of
                     None \<Rightarrow> None
                   | Some a \<Rightarrow>
                       (case md of
                          DateMode \<Rightarrow> (case h a of Some (DateObj y m d t) \<Rightarrow> Some a | _ \<Rightarrow> None)
                        | TimeMode \<Rightarrow> Some a))
      in case given of
           Some a \<Rightarrow> p0\<lparr>currentValue := a\<rparr>
         | None \<Rightarrow> (case alloc fresh p0 of (a, p) \<Rightarrow> p\<lparr>currentValue := a\<rparr>))"

text \<open>The second part builds the columns from the value; \<open>ny\<close> is the year of the clock.\<close>

definition buildColumns :: "jsobj \<Rightarrow> diary_settings \<Rightarrow> int \<Rightarrow> column list" where
  "buildColumns v stored ny =
     (case v of
        DateObj y m d t \<Rightarrow>
          let years = getYearRange stored ny;
              yearIndex = indexOf years (String_js y);
              yearCol = createWheelColumn years
                          (if yearIndex \<ge> 0 then yearIndex else int (length years) - 1);
              months = range_js 1 12 False;
              monthCol = createWheelColumn months m;
              days = range_js 1 (getDaysInMonth y (m + 1)) False;
              dayCol = createWheelColumn days (d - 1)
          in [yearCol, monthCol, dayCol]
      | TimeObj hr mi \<Rightarrow>
          let hours = range_js 0 23 True;
              hourCol = createWheelColumn hours hr;
              minutes = range_js 0 59 True;
              minuteCol = createWheelColumn minutes mi
          in [hourCol, minuteCol])"

definition create ::
  "mode \<Rightarrow> nat option \<Rightarrow> bool \<Rightarrow> bool \<Rightarrow> int \<times> int \<times> int \<times> int \<Rightarrow> diary_settings \<Rightarrow>
   (nat \<Rightarrow> jsobj option) \<Rightarrow> nat \<Rightarrow> picker option"
where
  "create md val onChange onConfirm now stored h free = do {
     p2 \<leftarrow> updateTitle (initialValue md val onChange onConfirm now h free);
     v \<leftarrow> readValue p2;
     Some (p2\<lparr>columns := buildColumns v stored (fst now)\<rparr>)
   }"

text \<open>The click listener of the quick button ("today" or "now").\<close>

definition quickClick :: "int \<times> int \<times> int \<times> int \<Rightarrow> diary_settings \<Rightarrow> picker \<Rightarrow> picker option" where
  "quickClick clock stored p =
     (case clock of (ny, nm, nd, nt) \<Rightarrow>
      case alloc (DateObj ny nm nd nt) p of (now, p0) \<Rightarrow>
      do {
        p5 \<leftarrow> (case mode p0 of
                 DateMode \<Rightarrow> do {
                   p1 \<leftarrow> Some (p0\<lparr>currentValue := now\<rparr>);
                   years \<leftarrow> Some (getYearRange stored ny);
                   (y1, m1, d1, t1) \<leftarrow> dateAt p1 now;
                   yearIndex \<leftarrow> Some (indexOf years (String_js y1));
                   p2 \<leftarrow> withColumn 0
                          (setIndex (if yearIndex \<ge> 0 then yearIndex
                                     else int (length years) - 1) True)
                          year_onChange p1;
                   (y2, m2, d2, t2) \<leftarrow> dateAt p2 now;
                   p3 \<leftarrow> withColumn 1 (setIndex m2 True) month_onChange p2;
                   (y3, m3, d3, t3) \<leftarrow> dateAt p3 now;
                   daysInMonth \<leftarrow> Some (getDaysInMonth y3 (m3 + 1));
                   (y4, m4, d4, t4) \<leftarrow> dateAt p3 now;
                   withColumn 2 (setItems (range_js 1 daysInMonth False) (d4 - 1))
                     day_onChange p3
                 }
               | TimeMode \<Rightarrow> do {
                   (a, p1) \<leftarrow> Some (alloc (TimeObj (getHours nt) (getMinutes nt)) p0);
                   p2 \<leftarrow> Some (p1\<lparr>currentValue := a\<rparr>);
                   p3 \<leftarrow> withColumn 0 (setIndex (getHours nt) True) hour_onChange p2;
                   withColumn 1 (setIndex (getMinutes nt) True) minute_onChange p3
                 });
        p6 \<leftarrow> updateTitle p5;
        fireOnChange p6
      })"

text \<open>The click listener of the confirm button: \<open>onConfirm\<close>, then \<open>close()\<close>.\<close>

definition confirmClick :: "picker \<Rightarrow> picker option" where
  "confirmClick p = do {
     p1 \<leftarrow> (if hasOnConfirm p
            then do {
              v \<leftarrow> readValue p;
              (a, p1) \<leftarrow> copyValue p;
              Some (p1\<lparr>onConfirmCalls := onConfirmCalls p1 @ [(a, v)]\<rparr>)
            }
            else Some p);
     Some (p1\<lparr>active := False\<rparr>)
   }"

text \<open>\<open>getValue\<close> of the handle that \<open>create\<close> returns.\<close>

definition handle_getValue :: "picker \<Rightarrow> (nat \<times> picker) option" where
  "handle_getValue p = copyValue p"

text \<open>The caller writes \<open>v\<close> into the object at \<open>a\<close>.\<close>

definition caller_writes :: "nat \<Rightarrow> jsobj \<Rightarrow> picker \<Rightarrow> picker" where
  "caller_writes a v p = p\<lparr>heap := (heap p)(a \<mapsto> v)\<rparr>"

subsection \<open>Notions of the specification and the scenarios of its examples\<close>

text \<open>The specification's \<open>clamp\<close> of an index to a range.\<close>

definition clamp :: "int \<Rightarrow> int \<Rightarrow> int \<Rightarrow> int" where
  "clamp i lo hi = (if i < lo then lo else if i > hi then hi else i)"

text \<open>One run of \<open>inertiaScroll\<close> and all the frames after it.\<close>

definition chain :: "column \<Rightarrow> column \<times> notification list" where
  "chain c = (case inertiaScroll c of (c1, ns1) \<Rightarrow>
                case settle c1 of (c2, ns2) \<Rightarrow> (c2, ns1 @ ns2))"

text \<open>
  The result \<open>r\<close> is the column \<open>c\<close> snapped to the index nearest the offset \<open>y\<close>, at
  rest, with the one notification that is due.
\<close>

definition settled_at :: "column \<Rightarrow> real \<Rightarrow> column \<times> notification list \<Rightarrow> bool" where
  "settled_at c y r \<longleftrightarrow>
     (let k = max 0 (min (int (length (items c)) - 1) (getIndexFromPosition y))
      in currentIndex (fst r) = k
         \<and> snd r = (if k \<noteq> currentIndex c then [(k, js_index (items c) k)] else [])
         \<and> items (fst r) = items c \<and> pending (fst r) = {}
         \<and> isDragging (fst r) = isDragging c \<and> aligned (fst r))"

text \<open>At most the frame that \<open>animationId\<close> names is pending, and none during a drag.\<close>

definition frames_ok :: "column \<Rightarrow> bool" where
  "frames_ok c \<longleftrightarrow>
     (pending c = {} \<or> (\<exists>a. animationId c = Some a \<and> pending c = {a}))
     \<and> (isDragging c \<longrightarrow> pending c = {})"

text \<open>The hour column at 23, and a two-item column flicked upwards and left alone.\<close>

definition hourCol0 :: column where
  "hourCol0 = createWheelColumn (range_js 0 23 True) 23"

definition flicked :: column where
  "flicked = fst (run [PointerDown 100, PointerMove 90, PointerUp, Frame 1, Frame 2, Frame 3]
                    (createWheelColumn [''am'', ''pm''] 0))"

text \<open>The minute column at 58, dragged 10 pixels upwards in one move.\<close>

definition minuteCol0 :: column where
  "minuteCol0 = createWheelColumn (range_js 0 59 True) 58"

definition dragged :: column where
  "dragged = fst (run [PointerDown 100, PointerMove 90] minuteCol0)"

text \<open>The minute column at 0, pressed at 0 and pulled 300 pixels downwards.\<close>

definition pressed :: column where
  "pressed = handleStart 0 (createWheelColumn (range_js 0 59 True) 0)"

definition overdragged :: column where
  "overdragged = handleMove 300 pressed"

text \<open>The clock of the examples: 2 November 2026, 09:15:00.\<close>

definition clock :: "int \<times> int \<times> int \<times> int" where
  "clock = (2026, 10, 2, 33300000)"

text \<open>
  Scenario B: the caller's date 2024-02-29 is the object at address 0; the month column
  is dragged 72 pixels upwards, held, and released.
\<close>

definition leapHeap :: "nat \<Rightarrow> jsobj option" where
  "leapHeap = Map.empty(0 \<mapsto> DateObj 2024 1 29 0)"

definition leapPicker :: "picker option" where
  "leapPicker = create DateMode (Some 0) True True clock NoItem leapHeap 1"

definition toApril :: "event list" where
  "toApril = [PointerDown 200, PointerMove 128, PointerMove 128, PointerUp]"

definition aprilPicker :: "picker option" where
  "aprilPicker = Option.bind leapPicker (columnEvents 1 toApril)"

text \<open>The columns of scenario B: as created, and the month column during the drag.\<close>

definition yearCol0 :: column where
  "yearCol0 = createWheelColumn (getYearRange NoItem 2026) 24"

definition monthCol0 :: column where
  "monthCol0 = createWheelColumn (range_js 1 12 False) 1"

definition dayCol0 :: column where
  "dayCol0 = createWheelColumn (range_js 1 29 False) 28"

definition monthCol1 :: column where
  "monthCol1 = handleStart 200 monthCol0"

definition monthCol2 :: column where
  "monthCol2 = handleMove 128 monthCol1"

definition monthCol3 :: column where
  "monthCol3 = handleMove 128 monthCol2"

definition monthCol4 :: column where
  "monthCol4 = fst (handleEnd monthCol3)"

definition dayCol1 :: column where
  "dayCol1 = fst (setItems (range_js 1 30 False) 28 dayCol0)"

text \<open>The card of scenario B as \<open>create\<close> returns it, and after one \<open>getValue\<close>.\<close>

definition leapPicker0 :: picker where
  "leapPicker0 = \<lparr>mode = DateMode, heap = leapHeap, nextAddr = 1, currentValue = 0,
     columns = [yearCol0, monthCol0, dayCol0], title = DateTitle 2024 2,
     hasOnChange = True, hasOnConfirm = True, onChangeCalls = [], onConfirmCalls = [],
     active = True\<rparr>"

definition leapCopy :: picker where
  "leapCopy = leapPicker0\<lparr>heap := leapHeap(1 \<mapsto> DateObj 2024 1 29 0), nextAddr := 2\<rparr>"

text \<open>
  Scenario A: the caller's time 23:58 is the object at address 0, and the quick button
  is clicked at 09:15. Its columns start as the hour column at 23 and the minute column
  at 58.
\<close>

definition timeHeap :: "nat \<Rightarrow> jsobj option" where
  "timeHeap = Map.empty(0 \<mapsto> TimeObj 23 58)"

definition timePicker :: "picker option" where
  "timePicker = create TimeMode (Some 0) True True clock NoItem timeHeap 1"

definition nowPicker :: "picker option" where
  "nowPicker = Option.bind timePicker (quickClick clock NoItem)"

definition hourCol1 :: column where
  "hourCol1 = fst (setIndex 9 True hourCol0)"

definition minuteCol1 :: column where
  "minuteCol1 = fst (setIndex 15 True minuteCol0)"

text \<open>The card of scenario A as \<open>create\<close> returns it, and after one \<open>getValue\<close>.\<close>

definition timePicker0 :: picker where
  "timePicker0 = \<lparr>mode = TimeMode, heap = timeHeap, nextAddr = 1, currentValue = 0,
     columns = [hourCol0, minuteCol0], title = TimeTitle ''23'' ''58'',
     hasOnChange = True, hasOnConfirm = True, onChangeCalls = [], onConfirmCalls = [],
     active = True\<rparr>"

definition timeCopy :: picker where
  "timeCopy = timePicker0\<lparr>heap := timeHeap(1 \<mapsto> TimeObj 23 58), nextAddr := 2\<rparr>"

text \<open>
  A card in Time mode whose value is the object at \<open>a\<close>, holding \<open>h\<close> and \<open>mi\<close>; and a
  card \<open>q\<close> that differs from \<open>p\<close> by objects allocated, the title and the calls \<open>extra\<close>
  of \<open>onChange\<close>.
\<close>

definition showsTime :: "picker \<Rightarrow> nat \<Rightarrow> int \<Rightarrow> int \<Rightarrow> bool" where
  "showsTime p a h mi \<longleftrightarrow>
     mode p = TimeMode \<and> currentValue p = a \<and> heap p a = Some (TimeObj h mi) \<and> a < nextAddr p"

definition follows :: "picker \<Rightarrow> picker \<Rightarrow> jsobj list \<Rightarrow> bool" where
  "follows p q extra \<longleftrightarrow>
     mode q = mode p \<and> currentValue q = currentValue p
     \<and> heap q (currentValue p) = heap p (currentValue p) \<and> nextAddr p \<le> nextAddr q
     \<and> columns q = columns p \<and> hasOnChange q = hasOnChange p
     \<and> map snd (onChangeCalls q) = map snd (onChangeCalls p) @ extra"

declare settle.simps [simp del] inertia_stop.simps [simp del] String_digits.simps [simp del]
  range_loop.simps [simp del] norm_day.simps [simp del]

section \<open>Properties of a column\<close>

subsection \<open>What scrollToIndex leaves behind\<close>

lemma scrollToIndex_aligned: "aligned (fst (scrollToIndex c i animate))"
  by (simp add: scrollToIndex_def setPosition_def aligned_def Let_def)

lemma scrollToIndex_flags:
  "isDragging (fst (scrollToIndex c i animate)) = isDragging c"
  "pending (fst (scrollToIndex c i animate)) = pending c"
  "animationId (fst (scrollToIndex c i animate)) = animationId c"
  by (simp_all add: scrollToIndex_def setPosition_def Let_def)

lemma scrollToIndex_index:
  "currentIndex (fst (scrollToIndex c i animate)) = max 0 (min (int (length (items c)) - 1) i)"
  "items (fst (scrollToIndex c i animate)) = items c"
  by (simp_all add: scrollToIndex_def setPosition_def Let_def)

lemma scrollToIndex_notes:
  "snd (scrollToIndex c i animate) =
     (let k = max 0 (min (int (length (items c)) - 1) i)
      in if k \<noteq> currentIndex c then [(k, js_index (items c) k)] else [])"
  by (simp add: scrollToIndex_def Let_def)

lemma create_aligned: "aligned (createWheelColumn its sel)"
  by (simp add: createWheelColumn_def setPosition_def aligned_def Let_def)

subsection \<open>Stray pointer events\<close>

text \<open>
  C10. A pointer-move or pointer-up that reaches a column which is not being dragged
  changes nothing: the column is the same afterwards (index, offset and velocity
  included) and no notification fires.
\<close>

theorem stray_pointer_event_is_noop:
  assumes "\<not> isDragging c"
  shows "step (PointerMove y) c = (c, []) \<and> step PointerUp c = (c, [])"
  using assms by (simp add: handleMove_def handleEnd_def)

theorem stray_pointer_event_is_noop_witness:
  "\<not> isDragging hourCol0
   \<and> step (PointerMove 5) hourCol0 = (hourCol0, [])
   \<and> step PointerUp hourCol0 = (hourCol0, [])"
proof -
  have h: "\<not> isDragging hourCol0"
    by (simp add: hourCol0_def createWheelColumn_def setPosition_def Let_def)
  from stray_pointer_event_is_noop [OF h, of 5] h show ?thesis by blast
qed

subsection \<open>setIndex and the value read back\<close>

text \<open>
  C3. On a column with at least one item, after \<open>setIndex(i, false)\<close> the value read is
  the item at \<open>i\<close> clamped to the range of the indices, for every integer \<open>i\<close>, and a
  notification fires exactly when that clamped index is not the index committed before.
\<close>

theorem setIndex_then_getValue:
  assumes "items c \<noteq> []"
  shows "getValue (fst (setIndex i False c))
           = Some (items c ! nat (clamp i 0 (int (length (items c)) - 1)))
       \<and> (snd (setIndex i False c) \<noteq> []
            \<longleftrightarrow> clamp i 0 (int (length (items c)) - 1) \<noteq> currentIndex c)"
  using assms
  by (auto simp: setIndex_def getValue_def scrollToIndex_index scrollToIndex_notes
      js_index_def clamp_def Let_def)

theorem setIndex_then_getValue_witness:
  "items hourCol0 \<noteq> []
   \<and> getValue (fst (setIndex (- 5) False hourCol0)) = Some ''00''
   \<and> snd (setIndex (- 5) False hourCol0) \<noteq> []"
proof -
  have h: "items hourCol0 \<noteq> []" by code_simp
  have v: "items hourCol0 ! nat (clamp (- 5) 0 (int (length (items hourCol0)) - 1)) = ''00''"
    by code_simp
  have k: "clamp (- 5) 0 (int (length (items hourCol0)) - 1) \<noteq> currentIndex hourCol0"
    by code_simp
  from setIndex_then_getValue [OF h, of "- 5"] h v k show ?thesis by simp
qed

subsection \<open>Damping while dragging\<close>

lemma minY_nonpos: "items c \<noteq> [] \<Longrightarrow> minY c \<le> maxY"
  by (cases "items c") (simp_all add: minY_def maxY_def ITEM_HEIGHT_def)

lemma handleMove_offset:
  "isDragging c \<Longrightarrow>
   currentY (handleMove clientY c) =
     (if clientY - startY c > maxY then maxY + (clientY - startY c - maxY) * 0.3
      else if clientY - startY c < minY c then minY c + (clientY - startY c - minY c) * 0.3
      else clientY - startY c)"
  by (simp add: handleMove_def Let_def minY_def)

lemma handleMove_transform:
  "isDragging c \<Longrightarrow> transformY (handleMove clientY c) = currentY (handleMove clientY c)"
  by (simp add: handleMove_def Let_def)

text \<open>
  C7, as the code has it. While a column with at least one item is dragged, every move
  writes to the transform the offset it stores, and where the offset the pointer asks
  for lies outside the range from \<open>minY\<close> to \<open>maxY\<close>, the offset displayed lies beyond
  that boundary by 0.3 times what the pointer asks beyond it. There is no cap: the offset
  displayed stays less than two item heights beyond the boundary exactly while the
  pointer asks for less than 240 pixels beyond it.
\<close>

theorem drag_damping:
  assumes "isDragging c" and "items c \<noteq> []"
  shows "transformY (handleMove clientY c) = currentY (handleMove clientY c)
       \<and> (clientY - startY c > maxY \<longrightarrow>
            transformY (handleMove clientY c) - maxY = 0.3 * (clientY - startY c - maxY)
          \<and> (transformY (handleMove clientY c) - maxY < 2 * ITEM_HEIGHT
               \<longleftrightarrow> clientY - startY c - maxY < 240))
       \<and> (clientY - startY c < minY c \<longrightarrow>
            minY c - transformY (handleMove clientY c) = 0.3 * (minY c - (clientY - startY c))
          \<and> (minY c - transformY (handleMove clientY c) < 2 * ITEM_HEIGHT
               \<longleftrightarrow> minY c - (clientY - startY c) < 240))"
proof (intro conjI impI)
  let ?newY = "clientY - startY c"
  have lo: "minY c \<le> maxY" using assms(2) by (rule minY_nonpos)
  note t = handleMove_transform [OF assms(1), of clientY]
  show "transformY (handleMove clientY c) = currentY (handleMove clientY c)" by (rule t)
  {
    assume up: "?newY > maxY"
    then have y: "transformY (handleMove clientY c) = maxY + (?newY - maxY) * 0.3"
      by (simp add: t handleMove_offset [OF assms(1)])
    show "transformY (handleMove clientY c) - maxY = 0.3 * (?newY - maxY)"
      unfolding y by argo
    show "transformY (handleMove clientY c) - maxY < 2 * ITEM_HEIGHT \<longleftrightarrow> ?newY - maxY < 240"
      unfolding y ITEM_HEIGHT_def by argo
  }
  {
    assume down: "?newY < minY c"
    then have y: "transformY (handleMove clientY c) = minY c + (?newY - minY c) * 0.3"
      using lo by (simp add: t handleMove_offset [OF assms(1)])
    show "minY c - transformY (handleMove clientY c) = 0.3 * (minY c - ?newY)"
      unfolding y by argo
    show "minY c - transformY (handleMove clientY c) < 2 * ITEM_HEIGHT
            \<longleftrightarrow> minY c - ?newY < 240"
      unfolding y ITEM_HEIGHT_def by argo
  }
qed

theorem drag_damping_witness:
  "isDragging pressed \<and> items pressed \<noteq> [] \<and> 300 - startY pressed > maxY
   \<and> transformY (handleMove 300 pressed) = currentY (handleMove 300 pressed)
   \<and> transformY (handleMove 300 pressed) - maxY = 0.3 * (300 - startY pressed - maxY)
   \<and> \<not> transformY (handleMove 300 pressed) - maxY < 2 * ITEM_HEIGHT"
proof -
  have d: "isDragging pressed" by code_simp
  have i: "items pressed \<noteq> []" by code_simp
  have u: "300 - startY pressed > maxY" by code_simp
  have f: "\<not> 300 - startY pressed - maxY < 240" by code_simp
  from drag_damping [OF d i, of 300] d i u f show ?thesis by blast
qed

text \<open>
  The claim as the specification states it fails: pulled 300 pixels past the first item,
  the column shows an offset of 90 pixels, more than two item heights beyond the boundary.
\<close>

theorem drag_damping_counterexample:
  "interactionState overdragged = Dragging
   \<and> currentY overdragged = 90 \<and> transformY overdragged = 90
   \<and> currentY overdragged - maxY \<ge> 2 * ITEM_HEIGHT"
  by code_simp

subsection \<open>The offset at rest\<close>

lemma step_idle:
  assumes "interactionState c = Idle \<longrightarrow> aligned c"
  shows "interactionState (fst (step e c)) = Idle \<longrightarrow> aligned (fst (step e c))"
proof (cases e)
  case (PointerDown y)
  then show ?thesis
    by (simp add: handleStart_def interactionState_def Let_def cancelAnimationFrame_def
        split: option.splits)
next
  case (PointerMove y)
  then show ?thesis using assms by (simp add: handleMove_def interactionState_def Let_def)
next
  case PointerUp
  then show ?thesis using assms
    by (auto simp: handleEnd_def inertiaScroll_def Let_def scrollToIndex_aligned
        scrollToIndex_flags interactionState_def requestAnimationFrame_def)
next
  case (Frame a)
  then show ?thesis using assms
    by (auto simp: runFrame_def inertiaScroll_def Let_def scrollToIndex_aligned
        scrollToIndex_flags interactionState_def requestAnimationFrame_def)
next
  case (Click i)
  then show ?thesis by (simp add: handleClick_def scrollToIndex_aligned)
next
  case (Wheel d)
  then show ?thesis by (simp add: handleWheel_def scrollToIndex_aligned Let_def)
next
  case (SetIndex i an)
  then show ?thesis by (simp add: setIndex_def scrollToIndex_aligned)
next
  case (SetItems its i)
  then show ?thesis by (simp add: setItems_def scrollToIndex_aligned)
qed

lemma run_idle:
  "(interactionState c = Idle \<longrightarrow> aligned c) \<Longrightarrow>
   interactionState (fst (run es c)) = Idle \<longrightarrow> aligned (fst (run es c))"
proof (induction es arbitrary: c)
  case Nil
  then show ?case by simp
next
  case (Cons e es)
  from step_idle [OF Cons.prems, of e] Cons.IH [of "fst (step e c)"]
  show ?case by (simp add: split_beta)
qed

text \<open>
  C1. After any sequence of events on a column, from its creation on, whenever the column
  is idle its offset is exactly minus the committed index times the item height, and that
  is the offset written to the transform.
\<close>

theorem idle_offset_exact:
  assumes "interactionState (fst (run es (createWheelColumn its sel))) = Idle"
  shows "currentY (fst (run es (createWheelColumn its sel)))
           = - real_of_int (currentIndex (fst (run es (createWheelColumn its sel)))) * ITEM_HEIGHT
       \<and> transformY (fst (run es (createWheelColumn its sel)))
           = currentY (fst (run es (createWheelColumn its sel)))"
  using run_idle [of "createWheelColumn its sel" es] create_aligned [of its sel] assms
  by (simp add: aligned_def)

theorem idle_offset_exact_witness:
  "interactionState flicked = Idle \<and> currentIndex flicked = 1
   \<and> currentY flicked = - 1 * ITEM_HEIGHT \<and> transformY flicked = currentY flicked"
proof -
  have h: "interactionState
             (fst (run [PointerDown 100, PointerMove 90, PointerUp, Frame 1, Frame 2, Frame 3]
                     (createWheelColumn [''am'', ''pm''] 0))) = Idle"
    by code_simp
  have k: "currentIndex flicked = 1" by code_simp
  from idle_offset_exact [OF h] h k show ?thesis by (simp add: flicked_def)
qed

subsection \<open>A fling past the last item\<close>

lemma settle_no_pending: "pending c = {} \<Longrightarrow> settle c = (c, [])"
  by (subst settle.simps) (simp split: option.splits)

lemma settle_due:
  "animationId d = Some a \<Longrightarrow> a \<in> pending d \<Longrightarrow>
   settle d = chain (d\<lparr>pending := pending d - {a}\<rparr>)"
  by (subst settle.simps) (simp add: runFrame_def chain_def split_beta Let_def)

lemma settled_at_same:
  "settled_at d y r \<Longrightarrow> items d = items c \<Longrightarrow> currentIndex d = currentIndex c \<Longrightarrow>
   isDragging d = isDragging c \<Longrightarrow> settled_at c y r"
  by (simp add: settled_at_def Let_def)

lemma settled_at_scroll:
  "pending d = {} \<Longrightarrow> settled_at d y (scrollToIndex d (getIndexFromPosition y) True)"
  by (simp add: settled_at_def scrollToIndex_index scrollToIndex_notes scrollToIndex_flags
      scrollToIndex_aligned Let_def)

lemma chain_settles:
  "minY c = lo \<Longrightarrow> velocity c = v \<Longrightarrow> currentY c = y \<Longrightarrow> pending c = {} \<Longrightarrow>
   settled_at c (inertia_stop lo v y) (chain c)"
proof (induction lo v y arbitrary: c rule: inertia_stop.induct)
  case (1 lo v y)
  define v1 where "v1 = v * 0.92"
  define y1 where "y1 = y + v1"
  define c1 where "c1 = c\<lparr>velocity := v1, currentY := y1\<rparr>"
  have c1: "minY c1 = lo" "velocity c1 = v1" "currentY c1 = y1" "pending c1 = {}"
    "items c1 = items c" "currentIndex c1 = currentIndex c" "isDragging c1 = isDragging c"
    "nextId c1 = nextId c"
    using "1.prems" by (simp_all add: c1_def minY_def)
  have scroll: "inertiaScroll c =
      (if y1 > maxY \<or> y1 < lo \<or> \<bar>v1\<bar> < 0.5
       then scrollToIndex c1 (getIndexFromPosition y1) True
       else (requestAnimationFrame (c1\<lparr>transformY := y1\<rparr>), []))"
    using c1(1) "1.prems"(2,3) unfolding c1_def y1_def v1_def inertiaScroll_def Let_def
    by simp
  have stop: "inertia_stop lo v y =
      (if y1 > maxY \<or> y1 < lo \<or> \<bar>v1\<bar> < 0.5 then y1 else inertia_stop lo v1 y1)"
    unfolding y1_def v1_def by (subst inertia_stop.simps) (simp add: Let_def)
  show ?case
  proof (cases "y1 > maxY \<or> y1 < lo \<or> \<bar>v1\<bar> < 0.5")
    case True
    let ?r = "scrollToIndex c1 (getIndexFromPosition y1) True"
    have "pending (fst ?r) = {}" using c1(4) by (simp add: scrollToIndex_flags)
    then have "settle (fst ?r) = (fst ?r, [])" by (rule settle_no_pending)
    then have ch: "chain c = ?r"
      unfolding chain_def scroll using True by (simp add: split_beta)
    have "settled_at c1 y1 ?r" using c1(4) by (rule settled_at_scroll)
    then have "settled_at c y1 ?r" using c1(5,6,7) by (rule settled_at_same)
    then show ?thesis using True by (simp add: stop ch)
  next
    case False
    define c2 where "c2 = requestAnimationFrame (c1\<lparr>transformY := y1\<rparr>)"
    define c3 where "c3 = c2\<lparr>pending := pending c2 - {nextId c}\<rparr>"
    have due: "animationId c2 = Some (nextId c)" "nextId c \<in> pending c2"
      using c1(8) by (simp_all add: c2_def requestAnimationFrame_def)
    have st: "settle c2 = chain c3"
      unfolding c3_def using due by (rule settle_due)
    have ch: "chain c = chain c3"
      unfolding chain_def [of c] scroll using False st by (simp add: split_beta c2_def)
    have c3: "minY c3 = lo" "velocity c3 = v1" "currentY c3 = y1" "pending c3 = {}"
      "items c3 = items c" "currentIndex c3 = currentIndex c" "isDragging c3 = isDragging c"
      using c1 by (simp_all add: c3_def c2_def requestAnimationFrame_def minY_def)
    have "\<not> (maxY < y1 \<or> y1 < lo \<or> \<bar>v1\<bar> < 0.5)" using False by simp
    from "1.IH" [OF v1_def y1_def this c3(1,2,3,4)]
    have "settled_at c3 (inertia_stop lo v1 y1) (chain c3)" .
    then have "settled_at c (inertia_stop lo v1 y1) (chain c3)"
      using c3(5,6,7) by (rule settled_at_same)
    then show ?thesis using False by (simp add: stop ch)
  qed
qed

lemma release_fling:
  assumes "isDragging c" and "\<bar>velocity c\<bar> > 2" and "pending c = {}"
  shows "settled_at (c\<lparr>isDragging := False\<rparr>)
           (inertia_stop (minY c) (velocity c) (currentY c)) (release c)"
proof -
  have "release c = chain (c\<lparr>isDragging := False\<rparr>)"
    using assms(1,2) by (simp add: release_def handleEnd_def chain_def Let_def)
  moreover have "settled_at (c\<lparr>isDragging := False\<rparr>)
           (inertia_stop (minY c) (velocity c) (currentY c)) (chain (c\<lparr>isDragging := False\<rparr>))"
    by (rule chain_settles) (simp_all add: minY_def assms(3))
  ultimately show ?thesis by simp
qed

lemma step_frames_ok: "frames_ok c \<Longrightarrow> frames_ok (fst (step e c))"
proof (cases e)
  case (PointerDown y)
  assume "frames_ok c"
  then show ?thesis using PointerDown
    by (auto simp: frames_ok_def handleStart_def Let_def cancelAnimationFrame_def split: option.splits)
next
  case (PointerMove y)
  assume "frames_ok c"
  then show ?thesis using PointerMove by (auto simp: frames_ok_def handleMove_def Let_def)
next
  case PointerUp
  assume "frames_ok c"
  then show ?thesis using PointerUp
    by (auto simp: frames_ok_def handleEnd_def inertiaScroll_def Let_def scrollToIndex_flags
        requestAnimationFrame_def)
next
  case (Frame a)
  assume "frames_ok c"
  then show ?thesis using Frame
    by (auto simp: frames_ok_def runFrame_def inertiaScroll_def Let_def scrollToIndex_flags
        requestAnimationFrame_def)
next
  case (Click i)
  assume "frames_ok c"
  then show ?thesis using Click
    by (auto simp: frames_ok_def handleClick_def scrollToIndex_flags)
next
  case (Wheel d)
  assume "frames_ok c"
  then show ?thesis using Wheel
    by (auto simp: frames_ok_def handleWheel_def Let_def scrollToIndex_flags)
next
  case (SetIndex i an)
  assume "frames_ok c"
  then show ?thesis using SetIndex
    by (auto simp: frames_ok_def setIndex_def scrollToIndex_flags)
next
  case (SetItems its i)
  assume "frames_ok c"
  then show ?thesis using SetItems
    by (auto simp: frames_ok_def setItems_def scrollToIndex_flags)
qed

lemma run_frames_ok: "frames_ok c \<Longrightarrow> frames_ok (fst (run es c))"
proof (induction es arbitrary: c)
  case Nil
  then show ?case by simp
next
  case (Cons e es)
  from Cons.IH [OF step_frames_ok [OF Cons.prems, of e]]
  show ?case by (simp add: split_beta)
qed

lemma create_frames_ok: "frames_ok (createWheelColumn its sel)"
  by (simp add: createWheelColumn_def setPosition_def frames_ok_def Let_def)

text \<open>
  C4. A column of 60 items with index 58 committed is released during a drag with a
  velocity above 2 in absolute value, and the inertial decay started there stops at an
  offset past the last item. Then the release and the frames that follow end after
  finitely many frames (\<open>release\<close> is a total function) with the column idle at index 59,
  aligned to it, index 59 being the one notification.
\<close>

theorem fling_past_last_index:
  assumes "c = fst (run es (createWheelColumn its sel))"
    and "isDragging c" and "length (items c) = 60" and "currentIndex c = 58"
    and "\<bar>velocity c\<bar> > 2"
    and "inertia_stop (minY c) (velocity c) (currentY c) < minY c"
  shows "currentIndex (fst (release c)) = 59
       \<and> snd (release c) = [(59, Some (items c ! 59))]
       \<and> interactionState (fst (release c)) = Idle
       \<and> currentY (fst (release c)) = - 59 * ITEM_HEIGHT"
proof -
  have "frames_ok c" unfolding assms(1) by (rule run_frames_ok [OF create_frames_ok])
  then have np: "pending c = {}" using assms(2) by (simp add: frames_ok_def)
  let ?y = "inertia_stop (minY c) (velocity c) (currentY c)"
  have "- ?y / ITEM_HEIGHT > 59"
    using assms(6,3) by (simp add: minY_def ITEM_HEIGHT_def)
  then have "getIndexFromPosition ?y \<ge> 59"
    unfolding getIndexFromPosition_def round_def by linarith
  then have k: "max 0 (min 59 (getIndexFromPosition ?y)) = 59"
    by simp
  from release_fling [OF assms(2,5) np]
  have "currentIndex (fst (release c)) = 59
      \<and> snd (release c) = (if 59 \<noteq> currentIndex c then [(59, js_index (items c) 59)] else [])
      \<and> pending (fst (release c)) = {} \<and> \<not> isDragging (fst (release c))
      \<and> aligned (fst (release c))"
    using k assms(3) by (simp add: settled_at_def Let_def)
  then show ?thesis
    using assms(3,4) by (simp add: interactionState_def aligned_def js_index_def)
qed

theorem fling_past_last_index_witness:
  "isDragging dragged \<and> length (items dragged) = 60 \<and> currentIndex dragged = 58
   \<and> \<bar>velocity dragged\<bar> > 2
   \<and> inertia_stop (minY dragged) (velocity dragged) (currentY dragged) < minY dragged
   \<and> currentIndex (fst (release dragged)) = 59
   \<and> snd (release dragged) = [(59, Some ''59'')]
   \<and> interactionState (fst (release dragged)) = Idle
   \<and> currentY (fst (release dragged)) = - 59 * ITEM_HEIGHT"
proof -
  have r: "dragged = fst (run [PointerDown 100, PointerMove 90]
                            (createWheelColumn (range_js 0 59 True) 58))"
    by (simp add: dragged_def minuteCol0_def)
  have d: "isDragging dragged" by code_simp
  have n: "length (items dragged) = 60" by code_simp
  have k: "currentIndex dragged = 58" by code_simp
  have v: "\<bar>velocity dragged\<bar> > 2" by code_simp
  have s: "inertia_stop (minY dragged) (velocity dragged) (currentY dragged) < minY dragged"
    by code_simp
  have i: "items dragged ! 59 = ''59''" by code_simp
  from fling_past_last_index [OF r d n k v s] d n k v s i show ?thesis by simp
qed


section \<open>Properties of the range provider\<close>

lemma range_loop_map:
  "range_loop i stop padZero arr =
     arr @ map (\<lambda>i. if padZero then padStart2 (String_js i) else String_js i) [i..stop]"
proof (induction i stop padZero arr rule: range_loop.induct)
  case (1 i stop padZero arr)
  show ?case
  proof (cases "i \<le> stop")
    case True
    then show ?thesis
      using "1.IH" by (subst range_loop.simps) (simp add: upto_rec1 [of i stop])
  next
    case False
    then show ?thesis by (subst range_loop.simps) simp
  qed
qed

lemma range_js_map:
  "range_js start stop padZero =
     map (\<lambda>i. if padZero then padStart2 (String_js i) else String_js i) [start..stop]"
  by (simp add: range_js_def range_loop_map)

lemma range_js_length: "length (range_js start stop padZero) = nat (stop - start + 1)"
  by (simp add: range_js_map)

lemma months_list:
  "range_js 1 12 False
     = [''1'', ''2'', ''3'', ''4'', ''5'', ''6'']
       @ [''7'', ''8'', ''9'', ''10'', ''11'', ''12'']"
  by code_simp

lemma year_range_fallback:
  "stored = NoItem \<or> stored = Throws \<or> stored = Settings NoBirthday \<Longrightarrow>
   getYearRange stored currentYear = range_js 2000 (currentYear + 1) False"
  by (auto simp: getYearRange_def)

lemma year_range_fallback_nonempty:
  assumes "stored = NoItem \<or> stored = Throws \<or> stored = Settings NoBirthday"
    and "1999 \<le> currentYear"
  shows "getYearRange stored currentYear \<noteq> []"
proof -
  have "length (getYearRange stored currentYear) = nat (currentYear + 1 - 2000 + 1)"
    by (simp only: year_range_fallback [OF assms(1)] range_js_length)
  then have "0 < length (getYearRange stored currentYear)" using assms(2) by simp
  then show ?thesis by simp
qed

text \<open>
  C6, where the code falls short of it. With a \<open>birthday\<close> in the stored settings that is
  truthy but no date (\<open>new Date\<close> gives an Invalid Date, whose year is NaN and which throws
  nothing for the \<open>catch\<close> to see), the year list is empty, whatever the clock says: there
  is no fall-back to the year 2000.
\<close>

theorem year_range_unparseable_birthday:
  "getYearRange (Settings (Birthday None)) currentYear = []"
  by (simp add: getYearRange_def)

section \<open>Properties of the picker card\<close>

subsection \<open>Scenario B, evaluated\<close>

lemma leaf_years: "indexOf (getYearRange NoItem 2026) (String_js 2024) = 24" by code_simp
lemma leaf_feb: "getDaysInMonth 2024 2 = 29" by code_simp
lemma leaf_apr: "getDaysInMonth 2024 4 = 30" by code_simp
lemma leaf_makeday: "MakeDay 2024 3 29 = (2024, 3, 29)" by code_simp
lemma leaf_parse4: "parseInt ''4'' = Some 4" by code_simp
lemma leaf_up: "snd (handleEnd monthCol3) = [(3, Some ''4'')]" by code_simp
lemma leaf_day: "snd (setItems (range_js 1 30 False) 28 dayCol0) = []" by code_simp

lemma leapPicker_eq:
  "leapPicker = Some \<lparr>mode = DateMode, heap = leapHeap, nextAddr = 1, currentValue = 0,
     columns = [yearCol0, monthCol0, dayCol0], title = DateTitle 2024 2,
     hasOnChange = True, hasOnConfirm = True, onChangeCalls = [], onConfirmCalls = [],
     active = True\<rparr>"
  by (simp add: leapPicker_def create_def initialValue_def buildColumns_def clock_def
      leapHeap_def updateTitle_def readValue_def leaf_years leaf_feb yearCol0_def
      monthCol0_def dayCol0_def)

lemma handleEnd_monthCol3: "handleEnd monthCol3 = (monthCol4, [(3, Some ''4'')])"
  by (simp add: monthCol4_def leaf_up [symmetric])

lemma setItems_dayCol0: "setItems (range_js 1 30 False) 28 dayCol0 = (dayCol1, [])"
  by (simp add: dayCol1_def leaf_day [symmetric])

lemma aprilPicker_eq:
  "aprilPicker = Some \<lparr>mode = DateMode,
     heap = leapHeap(0 \<mapsto> DateObj 2024 3 29 0, 1 \<mapsto> DateObj 2024 3 29 0),
     nextAddr = 2, currentValue = 0,
     columns = [yearCol0, monthCol4, dayCol1], title = DateTitle 2024 4,
     hasOnChange = True, hasOnConfirm = True,
     onChangeCalls = [(1, DateObj 2024 3 29 0)], onConfirmCalls = [],
     active = True\<rparr>"
  by (simp add: aprilPicker_def leapPicker_eq toApril_def columnEvent_def withColumn_def
      onChangeOf_def monthCol1_def [symmetric] monthCol2_def [symmetric]
      monthCol3_def [symmetric] handleEnd_monthCol3 month_onChange_def parseInt_opt_def
      leaf_parse4 dateAt_def leapHeap_def writeValue_def leaf_makeday updateDayColumn_def
      leaf_apr setItems_dayCol0 updateTitle_def readValue_def fireOnChange_def copyValue_def
      alloc_def)




subsection \<open>The month column\<close>

lemma updateTitle_Some:
  "updateTitle p = Some q \<Longrightarrow>
   mode q = mode p \<and> heap q = heap p \<and> currentValue q = currentValue p"
  by (auto simp: updateTitle_def split: Option.bind_splits)

lemma readValue_DateMode:
  "readValue p = Some v \<Longrightarrow> mode p = DateMode \<Longrightarrow> \<exists>y m d t. v = DateObj y m d t"
  by (auto simp: readValue_def split: option.splits jsobj.splits if_splits)

lemma items_create: "items (createWheelColumn its sel) = its"
  by (simp add: createWheelColumn_def setPosition_def Let_def)

lemma mode_initialValue: "mode (initialValue md val oc ocf now h free) = md"
  by (cases now) (simp add: initialValue_def alloc_def Let_def split: option.splits)

lemma create_DateMode_columns:
  assumes "create DateMode val onChange onConfirm now stored h free = Some p"
  shows "\<exists>c0 m c2. columns p = [c0, createWheelColumn (range_js 1 12 False) m, c2]"
proof -
  from assms obtain p2 v where
    t: "updateTitle (initialValue DateMode val onChange onConfirm now h free) = Some p2"
    and v: "readValue p2 = Some v"
    and p: "p = p2\<lparr>columns := buildColumns v stored (fst now)\<rparr>"
    by (auto simp: create_def split: Option.bind_splits)
  from updateTitle_Some [OF t] have "mode p2 = DateMode" by (simp add: mode_initialValue)
  from readValue_DateMode [OF v this] obtain y m d t where "v = DateObj y m d t" by blast
  then have "columns p = [createWheelColumn (getYearRange stored (fst now))
             (if 0 \<le> indexOf (getYearRange stored (fst now)) (String_js y)
              then indexOf (getYearRange stored (fst now)) (String_js y)
              else int (length (getYearRange stored (fst now))) - 1),
            createWheelColumn (range_js 1 12 False) m,
            createWheelColumn (range_js 1 (getDaysInMonth y (m + 1)) False) (d - 1)]"
    using p by (simp add: buildColumns_def Let_def)
  then show ?thesis by blast
qed

text \<open>
  C8, as the code has it. The month column of every card created in Date mode lists the
  twelve strings "1" to "12" in ascending order, without a leading zero.
\<close>

theorem month_column_items:
  assumes "create DateMode val onChange onConfirm now stored h free = Some p"
  shows "items (columns p ! 1)
     = [''1'', ''2'', ''3'', ''4'', ''5'', ''6'']
       @ [''7'', ''8'', ''9'', ''10'', ''11'', ''12'']"
proof -
  from create_DateMode_columns [OF assms] obtain c0 m c2
    where "columns p = [c0, createWheelColumn (range_js 1 12 False) m, c2]" by blast
  then show ?thesis by (simp add: items_create months_list)
qed

theorem month_column_items_witness:
  "map_option (\<lambda>p. items (columns p ! 1)) leapPicker
     = Some ([''1'', ''2'', ''3'', ''4'', ''5'', ''6'']
       @ [''7'', ''8'', ''9'', ''10'', ''11'', ''12''])"
proof -
  obtain p where p: "create DateMode (Some 0) True True clock NoItem leapHeap 1 = Some p"
    using leapPicker_eq by (simp add: leapPicker_def)
  from month_column_items [OF p] p show ?thesis by (simp add: leapPicker_def)
qed

text \<open>The claim as stated fails: the list is not "01" to "12".\<close>

theorem month_column_items_counterexample:
  "map_option (\<lambda>p. items (columns p ! 1)) leapPicker
     \<noteq> Some [''01'', ''02'', ''03'', ''04'', ''05'', ''06'', ''07'', ''08'', ''09'', ''10'',
              ''11'', ''12'']"
  by (simp add: leapPicker_eq monthCol0_def items_create months_list)


subsection \<open>A month change from the leap day\<close>

lemma leaf_dayCol1:
  "items dayCol1 = range_js 1 30 False \<and> getValue dayCol1 = Some ''29''
   \<and> getIndex dayCol1 = 28 \<and> interactionState dayCol1 = Idle"
  by code_simp

lemma leaf_monthCol4:
  "getValue monthCol4 = Some ''4'' \<and> getIndex monthCol4 = 3 \<and> interactionState monthCol4 = Idle"
  by code_simp

text \<open>
  C2, as the code has it. The card holds 2024-02-29 and the month column is dragged to
  April. Then the month column reads "4", the day column lists "1" to "30" and still has
  index 28 committed, which reads "29" (29 is a day of April, nothing is clamped), the
  value is 2024-04-29, and the caller's \<open>onChange\<close> ran once, for the month, with that
  date. The \<open>setItems\<close> on the day column fired no notification.
\<close>

theorem month_change_keeps_day:
  "map_option (\<lambda>p. (getValue (columns p ! 1), items (columns p ! 2), getValue (columns p ! 2),
                     getIndex (columns p ! 2), readValue p, map snd (onChangeCalls p)))
     aprilPicker
   = Some (Some ''4'', map String_js [1..30], Some ''29'', 28, Some (DateObj 2024 3 29 0),
           [DateObj 2024 3 29 0])
   \<and> snd (setItems (range_js 1 30 False) 28 dayCol0) = []"
proof (rule conjI)
  show "map_option (\<lambda>p. (getValue (columns p ! 1), items (columns p ! 2),
                           getValue (columns p ! 2), getIndex (columns p ! 2), readValue p,
                           map snd (onChangeCalls p)))
          aprilPicker
        = Some (Some ''4'', map String_js [1..30], Some ''29'', 28,
                Some (DateObj 2024 3 29 0), [DateObj 2024 3 29 0])"
    by (simp add: aprilPicker_eq leaf_dayCol1 leaf_monthCol4 readValue_def range_js_map)
  show "snd (setItems (range_js 1 30 False) 28 dayCol0) = []"
    by (rule leaf_day)
qed

text \<open>
  The claim as stated fails: the committed day is not 30, and the one \<open>onChange\<close> call is
  the month's, none is the day's.
\<close>

theorem month_change_counterexample:
  "map_option (\<lambda>p. getValue (columns p ! 2)) aprilPicker \<noteq> Some (Some ''30'')
   \<and> map_option (\<lambda>p. length (onChangeCalls p)) aprilPicker = Some 1"
  by (simp add: aprilPicker_eq leaf_dayCol1)

subsection \<open>Scenario A, evaluated\<close>

lemma leaf_pad: "padStart2 (String_js 23) = ''23'' \<and> padStart2 (String_js 58) = ''58''
   \<and> padStart2 (String_js 9) = ''09'' \<and> padStart2 (String_js 15) = ''15''"
  by code_simp

lemma timePicker_eq: "timePicker = Some timePicker0"
  by (simp add: timePicker_def create_def initialValue_def buildColumns_def clock_def
      timeHeap_def updateTitle_def readValue_def leaf_pad hourCol0_def minuteCol0_def
      timePicker0_def)

lemma leaf_hour: "snd (setIndex 9 True hourCol0) = [(9, Some ''09'')]" by code_simp
lemma leaf_minute: "snd (setIndex 15 True minuteCol0) = [(15, Some ''15'')]" by code_simp
lemma leaf_parse: "parseInt ''09'' = Some 9 \<and> parseInt ''15'' = Some 15" by code_simp
lemma leaf_cols: "currentIndex hourCol0 = 23 \<and> currentIndex minuteCol0 = 58
   \<and> currentIndex hourCol1 = 9 \<and> currentIndex minuteCol1 = 15" by code_simp

lemma setIndex_hourCol0: "setIndex 9 True hourCol0 = (hourCol1, [(9, Some ''09'')])"
  by (simp add: hourCol1_def leaf_hour [symmetric])

lemma setIndex_minuteCol0: "setIndex 15 True minuteCol0 = (minuteCol1, [(15, Some ''15'')])"
  by (simp add: minuteCol1_def leaf_minute [symmetric])

lemma nowPicker_eq:
  "map_option (\<lambda>q. (map currentIndex (columns q), readValue q, onChangeCalls q, title q))
     nowPicker
   = Some ([9, 15], Some (TimeObj 9 15),
           [(3, TimeObj 9 15), (4, TimeObj 9 15), (5, TimeObj 9 15)], TimeTitle ''09'' ''15'')"
  by (simp add: nowPicker_def timePicker_eq timePicker0_def quickClick_def clock_def alloc_def
      getHours_def getMinutes_def withColumn_def setIndex_hourCol0 setIndex_minuteCol0
      hour_onChange_def minute_onChange_def parseInt_opt_def leaf_parse timeAt_def
      writeValue_def updateTitle_def readValue_def fireOnChange_def copyValue_def leaf_pad
      timeHeap_def leaf_cols)

subsection \<open>The quick button in Time mode\<close>

lemma follows_trans: "follows p q e1 \<Longrightarrow> follows q r e2 \<Longrightarrow> follows p r (e1 @ e2)"
  by (simp add: follows_def)

lemma follows_showsTime: "showsTime p a h mi \<Longrightarrow> follows p q e \<Longrightarrow> showsTime q a h mi"
  by (auto simp: follows_def showsTime_def)

lemma readValue_showsTime: "showsTime p a h mi \<Longrightarrow> readValue p = Some (TimeObj h mi)"
  by (simp add: showsTime_def readValue_def)

lemma title_time:
  assumes "showsTime p a h mi"
  shows "\<exists>q. updateTitle p = Some q \<and> follows p q []"
  using readValue_showsTime [OF assms] by (simp add: updateTitle_def follows_def)

lemma fire_time:
  assumes "showsTime p a h mi"
  shows "\<exists>q. fireOnChange p = Some q
             \<and> follows p q (if hasOnChange p then [TimeObj h mi] else [])"
  using readValue_showsTime [OF assms] assms
  by (simp add: fireOnChange_def copyValue_def alloc_def follows_def showsTime_def)

lemma write_time:
  assumes "showsTime p a h mi"
  shows "follows p (writeValue (TimeObj h mi) p) []"
  using assms by (simp add: writeValue_def follows_def showsTime_def)

lemma title_fire_time:
  assumes "showsTime p a h mi"
  shows "\<exists>q. Option.bind (updateTitle (writeValue (TimeObj h mi) p)) fireOnChange = Some q
             \<and> follows p q (if hasOnChange p then [TimeObj h mi] else [])"
proof -
  let ?w = "writeValue (TimeObj h mi) p"
  have w: "follows p ?w []" using assms by (rule write_time)
  have sw: "showsTime ?w a h mi" using assms w by (rule follows_showsTime)
  from title_time [OF sw] obtain q1 where q1: "updateTitle ?w = Some q1" "follows ?w q1 []"
    by blast
  have s1: "showsTime q1 a h mi" using sw q1(2) by (rule follows_showsTime)
  from fire_time [OF s1] obtain q2 where q2: "fireOnChange q1 = Some q2"
    "follows q1 q2 (if hasOnChange q1 then [TimeObj h mi] else [])" by blast
  have h1: "hasOnChange q1 = hasOnChange p" using w q1(2) by (simp add: follows_def)
  have "follows p q2 ([] @ [] @ (if hasOnChange p then [TimeObj h mi] else []))"
    using follows_trans [OF w follows_trans [OF q1(2) q2(2)]] h1 by simp
  then show ?thesis using q1(1) q2(1) by simp
qed

lemma hour_time:
  assumes "showsTime p a h mi" and "parseInt_opt (snd n) = Some h"
  shows "\<exists>q. hour_onChange n p = Some q
             \<and> follows p q (if hasOnChange p then [TimeObj h mi] else [])"
proof -
  have "timeAt p (currentValue p) = Some (h, mi)"
    using assms(1) by (simp add: timeAt_def showsTime_def)
  then have "hour_onChange n p = Option.bind (updateTitle (writeValue (TimeObj h mi) p)) fireOnChange"
    using assms(2) by (simp add: hour_onChange_def)
  then show ?thesis using title_fire_time [OF assms(1)] by simp
qed

lemma minute_time:
  assumes "showsTime p a h mi" and "parseInt_opt (snd n) = Some mi"
  shows "\<exists>q. minute_onChange n p = Some q
             \<and> follows p q (if hasOnChange p then [TimeObj h mi] else [])"
proof -
  have "timeAt p (currentValue p) = Some (h, mi)"
    using assms(1) by (simp add: timeAt_def showsTime_def)
  then have "minute_onChange n p = Option.bind (updateTitle (writeValue (TimeObj h mi) p)) fireOnChange"
    using assms(2) by (simp add: minute_onChange_def)
  then show ?thesis using title_fire_time [OF assms(1)] by simp
qed


lemma parse_nth:
  assumes m: "map parseInt xs = map Some [0..n]" and "0 \<le> x" and "x \<le> n"
  shows "parseInt_opt (js_index xs x) = Some x"
proof -
  have len: "length xs = nat (n + 1)"
    using arg_cong [OF m, of length] by simp
  then have lt: "nat x < length xs" using assms(2,3) by simp
  have "parseInt (xs ! nat x) = map parseInt xs ! nat x" using lt by simp
  also have "\<dots> = map Some [0..n] ! nat x" by (simp only: m)
  also have "\<dots> = Some ([0..n] ! nat x)" using assms(2,3) by simp
  also have "[0..n] ! nat x = x" using assms(2,3) by (simp add: nth_upto)
  finally have "parseInt (xs ! nat x) = Some x" .
  then show ?thesis using lt assms(2) len by (simp add: parseInt_opt_def js_index_def)
qed

lemma hours_parse:
  "0 \<le> h \<Longrightarrow> h < 24 \<Longrightarrow> parseInt_opt (js_index (range_js 0 23 True) h) = Some h"
proof -
  have "map parseInt (range_js 0 23 True) = map Some [0..23]" by code_simp
  then show "0 \<le> h \<Longrightarrow> h < 24 \<Longrightarrow> parseInt_opt (js_index (range_js 0 23 True) h) = Some h"
    using parse_nth [of "range_js 0 23 True" 23 h] by simp
qed

lemma minutes_parse:
  "0 \<le> m \<Longrightarrow> m < 60 \<Longrightarrow> parseInt_opt (js_index (range_js 0 59 True) m) = Some m"
proof -
  have "map parseInt (range_js 0 59 True) = map Some [0..59]" by code_simp
  then show "0 \<le> m \<Longrightarrow> m < 60 \<Longrightarrow> parseInt_opt (js_index (range_js 0 59 True) m) = Some m"
    using parse_nth [of "range_js 0 59 True" 59 m] by simp
qed

lemma setIndex_in_range:
  assumes "0 \<le> x" and "x < int (length (items c))"
  shows "currentIndex (fst (setIndex x animate c)) = x"
    and "snd (setIndex x animate c)
           = (if x \<noteq> currentIndex c then [(x, js_index (items c) x)] else [])"
  using assms by (simp_all add: setIndex_def scrollToIndex_index scrollToIndex_notes Let_def)

lemma columns_showsTime: "showsTime (p\<lparr>columns := cs\<rparr>) a h mi = showsTime p a h mi"
  by (simp add: showsTime_def)

lemma quick_column:
  assumes s: "showsTime p a h mi" and k: "k < length (columns p)"
    and x: "0 \<le> x" "x < int (length (items (columns p ! k)))"
    and parse: "parseInt_opt (js_index (items (columns p ! k)) x) = Some x"
    and hd: "\<And>n r. showsTime r a h mi \<Longrightarrow> parseInt_opt (snd n) = Some x \<Longrightarrow>
               \<exists>q. handler n r = Some q
                   \<and> follows r q (if hasOnChange r then [TimeObj h mi] else [])"
  shows "\<exists>q. withColumn k (setIndex x True) handler p = Some q \<and> showsTime q a h mi
           \<and> columns q = (columns p)[k := fst (setIndex x True (columns p ! k))]
           \<and> hasOnChange q = hasOnChange p
           \<and> map snd (onChangeCalls q) = map snd (onChangeCalls p)
                @ (if x \<noteq> currentIndex (columns p ! k) \<and> hasOnChange p
                   then [TimeObj h mi] else [])"
proof -
  let ?c = "columns p ! k"
  let ?p = "p\<lparr>columns := (columns p)[k := fst (setIndex x True ?c)]\<rparr>"
  have w: "withColumn k (setIndex x True) handler p
             = notify_all handler (snd (setIndex x True ?c)) ?p"
    using k by (simp add: withColumn_def split_beta)
  have sp: "showsTime ?p a h mi" using s by (simp add: columns_showsTime)
  show ?thesis
  proof (cases "x = currentIndex ?c")
    case True
    then have "snd (setIndex x True ?c) = []" using setIndex_in_range(2) [OF x] by simp
    then show ?thesis using w sp True by simp
  next
    case False
    then have ns: "snd (setIndex x True ?c) = [(x, js_index (items ?c) x)]"
      using setIndex_in_range(2) [OF x] by simp
    from hd [OF sp, of "(x, js_index (items ?c) x)"] parse
    obtain q where q: "handler (x, js_index (items ?c) x) ?p = Some q"
      "follows ?p q (if hasOnChange ?p then [TimeObj h mi] else [])" by auto
    have "withColumn k (setIndex x True) handler p = Some q"
      using w ns q(1) by simp
    moreover have "showsTime q a h mi" using sp q(2) by (rule follows_showsTime)
    ultimately show ?thesis using q(2) False by (simp add: follows_def)
  qed
qed


lemma replicate_calls:
  "(if a then [t] else []) @ (if b then [t] else []) @ [t]
     = replicate (1 + (if a then 1 else 0) + (if b then 1 else 0)) t"
  by simp

text \<open>
  C5, as the code has it. On a card in Time mode with the hour and minute columns and a
  caller's \<open>onChange\<close>, a click on the quick button while the clock reads \<open>h:m\<close> sets both
  columns to \<open>h\<close> and \<open>m\<close>, makes \<open>{hour: h, minute: m}\<close> the value, and calls \<open>onChange\<close> with
  that value once for each column whose committed index changes and once more at the end:
  one to three times, not once.
\<close>

theorem quick_now_time_mode:
  assumes md: "mode p = TimeMode" and cols: "columns p = [hc, mc]"
    and hi: "items hc = range_js 0 23 True" and mi: "items mc = range_js 0 59 True"
    and oc: "hasOnChange p"
    and t: "0 \<le> nt" "nt < 86400000"
  shows "\<exists>q. quickClick (ny, nm, nd, nt) stored p = Some q
           \<and> map currentIndex (columns q) = [getHours nt, getMinutes nt]
           \<and> readValue q = Some (TimeObj (getHours nt) (getMinutes nt))
           \<and> map snd (onChangeCalls q)
               = map snd (onChangeCalls p)
                 @ replicate (1 + (if currentIndex hc \<noteq> getHours nt then 1 else 0)
                                + (if currentIndex mc \<noteq> getMinutes nt then 1 else 0))
                     (TimeObj (getHours nt) (getMinutes nt))"
proof -
  define H where "H = getHours nt"
  define M where "M = getMinutes nt"
  have H: "0 \<le> H" "H < 24" using t by (simp_all add: H_def getHours_def)
  have M: "0 \<le> M" "M < 60" by (simp_all add: M_def getMinutes_def)
  define a where "a = Suc (nextAddr p)"
  define p2 where "p2 = p\<lparr>heap := (heap p)(nextAddr p \<mapsto> DateObj ny nm nd nt, a \<mapsto> TimeObj H M),
                          nextAddr := Suc a, currentValue := a\<rparr>"
  have q0: "quickClick (ny, nm, nd, nt) stored p
      = Option.bind
          (Option.bind (withColumn 0 (setIndex H True) hour_onChange p2)
             (withColumn 1 (setIndex M True) minute_onChange))
          (\<lambda>p5. Option.bind (updateTitle p5) fireOnChange)"
    using md by (simp add: quickClick_def alloc_def p2_def a_def H_def M_def)
  have s2: "showsTime p2 a H M" using md by (simp add: showsTime_def p2_def)
  have c2: "columns p2 = [hc, mc]" "hasOnChange p2" "onChangeCalls p2 = onChangeCalls p"
    using cols oc by (simp_all add: p2_def)
  have "\<exists>q. withColumn 0 (setIndex H True) hour_onChange p2 = Some q \<and> showsTime q a H M
           \<and> columns q = (columns p2)[0 := fst (setIndex H True (columns p2 ! 0))]
           \<and> hasOnChange q = hasOnChange p2
           \<and> map snd (onChangeCalls q) = map snd (onChangeCalls p2)
                @ (if H \<noteq> currentIndex (columns p2 ! 0) \<and> hasOnChange p2
                   then [TimeObj H M] else [])"
  proof (rule quick_column [OF s2 _ H(1)])
    show "0 < length (columns p2)" by (simp add: c2)
    show "H < int (length (items (columns p2 ! 0)))"
      using H by (simp add: c2 hi range_js_length)
    show "parseInt_opt (js_index (items (columns p2 ! 0)) H) = Some H"
      using H by (simp add: c2 hi hours_parse)
    show "\<exists>q. hour_onChange n r = Some q
             \<and> follows r q (if hasOnChange r then [TimeObj H M] else [])"
      if "showsTime r a H M" and "parseInt_opt (snd n) = Some H" for n r
      using that by (rule hour_time)
  qed
  then obtain p3 where p3: "withColumn 0 (setIndex H True) hour_onChange p2 = Some p3"
    "showsTime p3 a H M" "columns p3 = [fst (setIndex H True hc), mc]" "hasOnChange p3"
    "map snd (onChangeCalls p3) = map snd (onChangeCalls p)
       @ (if H \<noteq> currentIndex hc then [TimeObj H M] else [])"
    by (auto simp: c2)
  have "\<exists>q. withColumn 1 (setIndex M True) minute_onChange p3 = Some q \<and> showsTime q a H M
           \<and> columns q = (columns p3)[1 := fst (setIndex M True (columns p3 ! 1))]
           \<and> hasOnChange q = hasOnChange p3
           \<and> map snd (onChangeCalls q) = map snd (onChangeCalls p3)
                @ (if M \<noteq> currentIndex (columns p3 ! 1) \<and> hasOnChange p3
                   then [TimeObj H M] else [])"
  proof (rule quick_column [OF p3(2) _ M(1)])
    show "1 < length (columns p3)" by (simp add: p3(3))
    show "M < int (length (items (columns p3 ! 1)))"
      using M by (simp add: p3(3) mi range_js_length)
    show "parseInt_opt (js_index (items (columns p3 ! 1)) M) = Some M"
      using M by (simp add: p3(3) mi minutes_parse)
    show "\<exists>q. minute_onChange n r = Some q
             \<and> follows r q (if hasOnChange r then [TimeObj H M] else [])"
      if "showsTime r a H M" and "parseInt_opt (snd n) = Some M" for n r
      using that by (rule minute_time)
  qed
  then obtain p4 where p4: "withColumn 1 (setIndex M True) minute_onChange p3 = Some p4"
    "showsTime p4 a H M" "columns p4 = [fst (setIndex H True hc), fst (setIndex M True mc)]"
    "hasOnChange p4"
    "map snd (onChangeCalls p4) = map snd (onChangeCalls p)
       @ (if H \<noteq> currentIndex hc then [TimeObj H M] else [])
       @ (if M \<noteq> currentIndex mc then [TimeObj H M] else [])"
    by (auto simp: p3)
  from title_time [OF p4(2)] obtain p5 where p5: "updateTitle p4 = Some p5" "follows p4 p5 []"
    by blast
  have s5: "showsTime p5 a H M" using p4(2) p5(2) by (rule follows_showsTime)
  from fire_time [OF s5] obtain p6 where p6: "fireOnChange p5 = Some p6"
    "follows p5 p6 (if hasOnChange p5 then [TimeObj H M] else [])" by blast
  have s6: "showsTime p6 a H M" using s5 p6(2) by (rule follows_showsTime)
  have f: "follows p4 p6 [TimeObj H M]"
    using follows_trans [OF p5(2) p6(2)] p4(4) p5(2) by (simp add: follows_def)
  have r: "quickClick (ny, nm, nd, nt) stored p = Some p6"
    using p4(1) by (simp add: q0 p3(1) p5(1) p6(1))
  have ci: "map currentIndex (columns p6) = [H, M]"
    using f H M by (simp add: follows_def p4(3) setIndex_in_range(1) hi mi range_js_length)
  have calls: "map snd (onChangeCalls p6)
      = map snd (onChangeCalls p)
        @ replicate (1 + (if currentIndex hc \<noteq> H then 1 else 0)
                       + (if currentIndex mc \<noteq> M then 1 else 0)) (TimeObj H M)"
    using f unfolding follows_def p4(5) replicate_calls [symmetric] by auto
  show ?thesis
  proof (intro exI conjI)
    show "quickClick (ny, nm, nd, nt) stored p = Some p6" by (rule r)
    show "map currentIndex (columns p6) = [getHours nt, getMinutes nt]"
      using ci by (simp only: H_def M_def)
    show "readValue p6 = Some (TimeObj (getHours nt) (getMinutes nt))"
      using readValue_showsTime [OF s6] by (simp only: H_def M_def)
    show "map snd (onChangeCalls p6)
      = map snd (onChangeCalls p)
        @ replicate (1 + (if currentIndex hc \<noteq> getHours nt then 1 else 0)
                       + (if currentIndex mc \<noteq> getMinutes nt then 1 else 0))
            (TimeObj (getHours nt) (getMinutes nt))"
      using calls by (simp only: H_def M_def)
  qed
qed

theorem quick_now_time_mode_witness:
  "map_option (\<lambda>q. (map currentIndex (columns q), readValue q, map snd (onChangeCalls q)))
     nowPicker
   = Some ([9, 15], Some (TimeObj 9 15), [TimeObj 9 15, TimeObj 9 15, TimeObj 9 15])"
proof -
  have h: "mode timePicker0 = TimeMode" "columns timePicker0 = [hourCol0, minuteCol0]"
    "items hourCol0 = range_js 0 23 True" "items minuteCol0 = range_js 0 59 True"
    "hasOnChange timePicker0"
    by (simp_all add: timePicker0_def hourCol0_def minuteCol0_def items_create)
  have t: "(0::int) \<le> 33300000" "(33300000::int) < 86400000" by simp_all
  from quick_now_time_mode [OF h t, of 2026 10 2 NoItem] obtain q
    where q: "quickClick (2026, 10, 2, 33300000) NoItem timePicker0 = Some q
      \<and> map currentIndex (columns q) = [getHours 33300000, getMinutes 33300000]
      \<and> readValue q = Some (TimeObj (getHours 33300000) (getMinutes 33300000))
      \<and> map snd (onChangeCalls q)
        = map snd (onChangeCalls timePicker0)
          @ replicate (1 + (if currentIndex hourCol0 \<noteq> getHours 33300000 then 1 else 0)
                         + (if currentIndex minuteCol0 \<noteq> getMinutes 33300000 then 1 else 0))
              (TimeObj (getHours 33300000) (getMinutes 33300000))" ..
  have n: "nowPicker = Some q"
    using q by (simp add: nowPicker_def timePicker_eq clock_def)
  show ?thesis
    unfolding n using q
    by (simp add: getHours_def getMinutes_def leaf_cols timePicker0_def)
qed

text \<open>
  The claim as stated fails: from 23:58 with the clock at 09:15 the caller's \<open>onChange\<close>
  runs three times, each time with 09:15.
\<close>

theorem quick_now_counterexample:
  "map_option (\<lambda>q. map snd (onChangeCalls q)) nowPicker
     = Some [TimeObj 9 15, TimeObj 9 15, TimeObj 9 15]
   \<and> map_option (\<lambda>q. length (onChangeCalls q)) nowPicker \<noteq> Some 1"
proof -
  from nowPicker_eq obtain q where q: "nowPicker = Some q"
    and c: "onChangeCalls q = [(3, TimeObj 9 15), (4, TimeObj 9 15), (5, TimeObj 9 15)]"
    by (cases nowPicker) auto
  show ?thesis unfolding q by (simp add: c)
qed

subsection \<open>getValue of the handle\<close>

lemma readValue_same:
  "mode q = mode p \<Longrightarrow> currentValue q = currentValue p \<Longrightarrow>
   heap q (currentValue p) = heap p (currentValue p) \<Longrightarrow> readValue q = readValue p"
  by (simp add: readValue_def split: option.splits jsobj.splits)

lemma create_readValue:
  assumes "create md val onChange onConfirm now stored h free = Some p"
  shows "\<exists>v. readValue p = Some v"
proof -
  from assms obtain p2 v where v: "readValue p2 = Some v"
    and p: "p = p2\<lparr>columns := buildColumns v stored (fst now)\<rparr>"
    by (auto simp: create_def split: Option.bind_splits)
  have "readValue p = readValue p2" by (rule readValue_same) (simp_all add: p)
  then show ?thesis using v by simp
qed

lemma leapPicker0_eq: "leapPicker = Some leapPicker0"
  by (simp add: leapPicker_eq leapPicker0_def)

text \<open>
  C9. On a card of either mode whose value is an allocated object holding \<open>v\<close> (every
  card that \<open>create\<close> returns has a value, see \<open>create_readValue\<close>), \<open>getValue\<close> of the
  handle returns: what it returns is a new object, at an address not in use before,
  that holds \<open>v\<close>, a \<open>Date\<close> in Date mode and an hour and minute in Time mode; the card is
  as before but for that allocation (columns, value, title and calls unchanged); and
  whatever the caller then writes into the returned object, the value of the card, the
  content of the next \<open>getValue\<close> and what \<open>confirm\<close> hands to \<open>onConfirm\<close> are still \<open>v\<close>.
\<close>

theorem getValue_is_fresh_copy:
  assumes "readValue p = Some v" and "currentValue p < nextAddr p"
  shows "\<exists>a q. handle_getValue p = Some (a, q)
       \<and> a = nextAddr p \<and> a \<noteq> currentValue p \<and> heap q a = Some v
       \<and> (case v of DateObj y m d t \<Rightarrow> mode p = DateMode | TimeObj hr mi \<Rightarrow> mode p = TimeMode)
       \<and> q = p\<lparr>heap := (heap p)(a \<mapsto> v), nextAddr := Suc (nextAddr p)\<rparr>
       \<and> (\<forall>w. readValue (caller_writes a w q) = Some v
              \<and> map_option (\<lambda>(b, r). heap r b) (handle_getValue (caller_writes a w q))
                  = Some (Some v)
              \<and> map_option (\<lambda>r. map snd (onConfirmCalls r))
                    (confirmClick (caller_writes a w q))
                  = Some (map snd (onConfirmCalls p) @ (if hasOnConfirm p then [v] else [])))"
proof -
  define a where "a = nextAddr p"
  define q where "q = p\<lparr>heap := (heap p)(a \<mapsto> v), nextAddr := Suc (nextAddr p)\<rparr>"
  have g0: "handle_getValue p = Some (a, q)"
    using assms(1) by (simp add: handle_getValue_def copyValue_def alloc_def a_def q_def)
  have ne: "a \<noteq> currentValue p" using assms(2) by (simp add: a_def)
  have hq: "heap q a = Some v" by (simp add: q_def)
  have kind: "case v of DateObj y m d t \<Rightarrow> mode p = DateMode
              | TimeObj hr mi \<Rightarrow> mode p = TimeMode"
    using assms(1) by (auto simp: readValue_def split: option.splits jsobj.splits if_splits)
  have after: "readValue (caller_writes a w q) = Some v
      \<and> map_option (\<lambda>(b, r). heap r b) (handle_getValue (caller_writes a w q)) = Some (Some v)
      \<and> map_option (\<lambda>r. map snd (onConfirmCalls r)) (confirmClick (caller_writes a w q))
          = Some (map snd (onConfirmCalls p) @ (if hasOnConfirm p then [v] else []))" for w
  proof -
    have "readValue (caller_writes a w q) = readValue p"
      using ne by (intro readValue_same) (simp_all add: q_def caller_writes_def)
    then have r: "readValue (caller_writes a w q) = Some v"
      using assms(1) by simp
    have g: "map_option (\<lambda>(b, r). heap r b) (handle_getValue (caller_writes a w q))
               = Some (Some v)"
      using r by (simp add: handle_getValue_def copyValue_def alloc_def)
    have c: "map_option (\<lambda>r. map snd (onConfirmCalls r)) (confirmClick (caller_writes a w q))
           = Some (map snd (onConfirmCalls p) @ (if hasOnConfirm p then [v] else []))"
      using r by (simp add: confirmClick_def copyValue_def alloc_def q_def caller_writes_def)
    show ?thesis using r g c by simp
  qed
  show ?thesis
  proof (intro exI conjI allI)
    show "handle_getValue p = Some (a, q)" by (rule g0)
    show "a = nextAddr p" by (rule a_def)
    show "a \<noteq> currentValue p" by (rule ne)
    show "heap q a = Some v" by (rule hq)
    show "case v of DateObj y m d t \<Rightarrow> mode p = DateMode | TimeObj hr mi \<Rightarrow> mode p = TimeMode"
      by (rule kind)
    show "q = p\<lparr>heap := (heap p)(a \<mapsto> v), nextAddr := Suc (nextAddr p)\<rparr>" by (rule q_def)
    show "readValue (caller_writes a w q) = Some v" for w using after [of w] by simp
    show "map_option (\<lambda>(b, r). heap r b) (handle_getValue (caller_writes a w q))
            = Some (Some v)" for w using after [of w] by simp
    show "map_option (\<lambda>r. map snd (onConfirmCalls r)) (confirmClick (caller_writes a w q))
            = Some (map snd (onConfirmCalls p) @ (if hasOnConfirm p then [v] else []))" for w
      using after [of w] by simp
  qed
qed

theorem getValue_is_fresh_copy_witness:
  "readValue leapPicker0 = Some (DateObj 2024 1 29 0)
   \<and> currentValue leapPicker0 < nextAddr leapPicker0
   \<and> handle_getValue leapPicker0 = Some (1, leapCopy)
   \<and> heap leapCopy 1 = Some (DateObj 2024 1 29 0)
   \<and> readValue (caller_writes 1 (DateObj 1970 0 1 0) leapCopy) = Some (DateObj 2024 1 29 0)
   \<and> map_option (\<lambda>r. map snd (onConfirmCalls r))
        (confirmClick (caller_writes 1 (DateObj 1970 0 1 0) leapCopy))
       = Some [DateObj 2024 1 29 0]
   \<and> readValue timePicker0 = Some (TimeObj 23 58)
   \<and> currentValue timePicker0 < nextAddr timePicker0
   \<and> handle_getValue timePicker0 = Some (1, timeCopy)
   \<and> heap timeCopy 1 = Some (TimeObj 23 58)
   \<and> readValue (caller_writes 1 (TimeObj 0 0) timeCopy) = Some (TimeObj 23 58)
   \<and> map_option (\<lambda>r. map snd (onConfirmCalls r))
        (confirmClick (caller_writes 1 (TimeObj 0 0) timeCopy)) = Some [TimeObj 23 58]"
proof -
  have rd: "readValue leapPicker0 = Some (DateObj 2024 1 29 0)"
    by (simp add: readValue_def leapPicker0_def leapHeap_def)
  have ad: "currentValue leapPicker0 < nextAddr leapPicker0" by (simp add: leapPicker0_def)
  have fd: "nextAddr leapPicker0 = 1" "hasOnConfirm leapPicker0" "onConfirmCalls leapPicker0 = []"
    "heap leapPicker0 = leapHeap"
    by (simp_all add: leapPicker0_def)
  from getValue_is_fresh_copy [OF rd ad] obtain a q
    where d: "handle_getValue leapPicker0 = Some (a, q)" "a = nextAddr leapPicker0"
      "heap q a = Some (DateObj 2024 1 29 0)"
      "q = leapPicker0\<lparr>heap := (heap leapPicker0)(a \<mapsto> DateObj 2024 1 29 0),
                        nextAddr := Suc (nextAddr leapPicker0)\<rparr>"
      "\<forall>w. readValue (caller_writes a w q) = Some (DateObj 2024 1 29 0)
         \<and> map_option (\<lambda>(b, r). heap r b) (handle_getValue (caller_writes a w q))
             = Some (Some (DateObj 2024 1 29 0))
         \<and> map_option (\<lambda>r. map snd (onConfirmCalls r)) (confirmClick (caller_writes a w q))
             = Some (map snd (onConfirmCalls leapPicker0)
                     @ (if hasOnConfirm leapPicker0 then [DateObj 2024 1 29 0] else []))"
    by (elim exE conjE)
  have a1: "a = 1" using d(2) fd(1) by simp
  have q1: "q = leapCopy" using d(4) by (simp add: a1 fd leapCopy_def)
  have date: "handle_getValue leapPicker0 = Some (1, leapCopy)
      \<and> heap leapCopy 1 = Some (DateObj 2024 1 29 0)
      \<and> readValue (caller_writes 1 (DateObj 1970 0 1 0) leapCopy) = Some (DateObj 2024 1 29 0)
      \<and> map_option (\<lambda>r. map snd (onConfirmCalls r))
           (confirmClick (caller_writes 1 (DateObj 1970 0 1 0) leapCopy))
          = Some [DateObj 2024 1 29 0]"
    using d(1,3) d(5) [rule_format, of "DateObj 1970 0 1 0"] by (simp add: a1 q1 fd)
  have rt: "readValue timePicker0 = Some (TimeObj 23 58)"
    by (simp add: readValue_def timePicker0_def timeHeap_def)
  have at: "currentValue timePicker0 < nextAddr timePicker0" by (simp add: timePicker0_def)
  have ft: "nextAddr timePicker0 = 1" "hasOnConfirm timePicker0" "onConfirmCalls timePicker0 = []"
    "heap timePicker0 = timeHeap"
    by (simp_all add: timePicker0_def)
  from getValue_is_fresh_copy [OF rt at] obtain b r
    where e: "handle_getValue timePicker0 = Some (b, r)" "b = nextAddr timePicker0"
      "heap r b = Some (TimeObj 23 58)"
      "r = timePicker0\<lparr>heap := (heap timePicker0)(b \<mapsto> TimeObj 23 58),
                        nextAddr := Suc (nextAddr timePicker0)\<rparr>"
      "\<forall>w. readValue (caller_writes b w r) = Some (TimeObj 23 58)
         \<and> map_option (\<lambda>(b, r). heap r b) (handle_getValue (caller_writes b w r))
             = Some (Some (TimeObj 23 58))
         \<and> map_option (\<lambda>r. map snd (onConfirmCalls r)) (confirmClick (caller_writes b w r))
             = Some (map snd (onConfirmCalls timePicker0)
                     @ (if hasOnConfirm timePicker0 then [TimeObj 23 58] else []))"
    by (elim exE conjE)
  have b1: "b = 1" using e(2) ft(1) by simp
  have r1: "r = timeCopy" using e(4) by (simp add: b1 ft timeCopy_def)
  have time: "handle_getValue timePicker0 = Some (1, timeCopy)
      \<and> heap timeCopy 1 = Some (TimeObj 23 58)
      \<and> readValue (caller_writes 1 (TimeObj 0 0) timeCopy) = Some (TimeObj 23 58)
      \<and> map_option (\<lambda>r. map snd (onConfirmCalls r))
           (confirmClick (caller_writes 1 (TimeObj 0 0) timeCopy)) = Some [TimeObj 23 58]"
    using e(1,3) e(5) [rule_format, of "TimeObj 0 0"] by (simp add: b1 r1 ft)
  show ?thesis using rd ad date rt at time by simp
qed

end
